theory Spec2Isabelle
  imports Main "HOL-Library.Multiset"
begin

section \<open>Data model\<close>

text \<open>
  The device status is one of the four wire strings \<^verbatim>\<open>"SAFE"\<close>, \<^verbatim>\<open>"FALL"\<close>,
  \<^verbatim>\<open>"SOS"\<close>, \<^verbatim>\<open>"AMBULANCE"\<close>; every write in README.jsx uses one of these literals.
  The profile role is \<^verbatim>\<open>'elderly'\<close> or \<^verbatim>\<open>'caregiver'\<close> (OnboardingScreen offers
  no other value).
\<close>

datatype status_t = SAFE | FALL | SOS | AMBULANCE

datatype role_t = Elderly | Caregiver

fun role_name :: "role_t \<Rightarrow> string" where
  "role_name Elderly = ''elderly''"
| "role_name Caregiver = ''caregiver''"

record vitals_t =
  heartRate :: int
  spo2 :: int
  battery :: int

text \<open>The device document (handlePairDevice creates it); times are server milliseconds.\<close>

record device =
  status :: status_t
  vitals :: vitals_t
  lastUpdate :: nat

text \<open>
  An event document is the object literal handed to \<^verbatim>\<open>addDoc\<close>: a list of
  field name and value in the order written. A field that the literal does not
  write is absent.
\<close>

datatype fval = Str string | Time nat

type_synonym event = "(string \<times> fval) list"

definition field :: "event \<Rightarrow> string \<Rightarrow> fval option" where
  "field e k = map_of e k"

record caregiver =
  cg_id :: nat
  cg_deviceId :: string
  cg_name :: string
  cg_phone :: string
  priority :: int

text \<open>
  The shared store: the device documents by id, the events and caregivers
  collections (each document with its store-assigned id), and the next
  store-assigned document id.
\<close>

record store =
  devices :: "string \<rightharpoonup> device"
  events :: "(nat \<times> event) list"
  caregivers :: "caregiver list"
  nextId :: nat

record profile =
  role :: role_t
  deviceId :: string

section \<open>Store primitives\<close>

text \<open>
  \<^verbatim>\<open>updateDoc(deviceRef, fields)\<close> merges the fields into the document and rejects
  (None) when the document does not exist. \<^verbatim>\<open>addDoc(events, data)\<close> appends a
  document under a fresh id. \<^verbatim>\<open>serverTimestamp()\<close> is the server time of the
  write, a parameter of every operation here.
\<close>

definition updateDoc :: "string \<Rightarrow> (device \<Rightarrow> device) \<Rightarrow> store \<Rightarrow> store option" where
  "updateDoc did f s =
     (case devices s did of
        None \<Rightarrow> None
      | Some d \<Rightarrow> Some (s\<lparr>devices := (devices s)(did \<mapsto> f d)\<rparr>))"

definition addDoc :: "event \<Rightarrow> store \<Rightarrow> store" where
  "addDoc e s = s\<lparr>events := events s @ [(nextId s, e)], nextId := Suc (nextId s)\<rparr>"

section \<open>Client transitions (DashboardScreen and AlertOverlay)\<close>

text \<open>
  Each handler awaits the status write and then appends the event; a rejected
  status write ends the handler before the append. \<open>t1\<close> is the server time of
  the status write and \<open>t2\<close> that of the append.
\<close>

definition manualSOS :: "profile \<Rightarrow> nat \<Rightarrow> nat \<Rightarrow> store \<Rightarrow> store option" where
  "manualSOS p t1 t2 s =
     (case updateDoc (deviceId p) (\<lambda>d. d\<lparr>status := SOS, lastUpdate := t1\<rparr>) s of
        None \<Rightarrow> None
      | Some s1 \<Rightarrow> Some (addDoc
          [(''deviceId'', Str (deviceId p)), (''type'', Str ''MANUAL_SOS''),
           (''timestamp'', Time t2), (''status'', Str ''ACTIVE'')] s1))"

definition escalateToSOS :: "profile \<Rightarrow> nat \<Rightarrow> nat \<Rightarrow> store \<Rightarrow> store option" where
  "escalateToSOS p t1 t2 s =
     (case updateDoc (deviceId p) (\<lambda>d. d\<lparr>status := SOS, lastUpdate := t1\<rparr>) s of
        None \<Rightarrow> None
      | Some s1 \<Rightarrow> Some (addDoc
          [(''deviceId'', Str (deviceId p)), (''type'', Str ''FALL_ESCALATED''),
           (''timestamp'', Time t2), (''status'', Str ''ACTIVE'')] s1))"

definition handleCancelFall :: "profile \<Rightarrow> nat \<Rightarrow> nat \<Rightarrow> store \<Rightarrow> store option" where
  "handleCancelFall p t1 t2 s =
     (case updateDoc (deviceId p) (\<lambda>d. d\<lparr>status := SAFE, lastUpdate := t1\<rparr>) s of
        None \<Rightarrow> None
      | Some s1 \<Rightarrow> Some (addDoc
          [(''deviceId'', Str (deviceId p)), (''type'', Str ''FALSE_ALARM''),
           (''timestamp'', Time t2), (''status'', Str ''RESOLVED'')] s1))"

definition handleRequestAmbulance :: "profile \<Rightarrow> nat \<Rightarrow> nat \<Rightarrow> store \<Rightarrow> store option" where
  "handleRequestAmbulance p t1 t2 s =
     (case updateDoc (deviceId p) (\<lambda>d. d\<lparr>status := AMBULANCE, lastUpdate := t1\<rparr>) s of
        None \<Rightarrow> None
      | Some s1 \<Rightarrow> Some (addDoc
          [(''deviceId'', Str (deviceId p)), (''type'', Str ''AMBULANCE_REQUESTED''),
           (''timestamp'', Time t2), (''status'', Str ''DISPATCHED''),
           (''requestedBy'', Str (role_name (role p)))] s1))"

definition handleResolveEmergency :: "profile \<Rightarrow> nat \<Rightarrow> nat \<Rightarrow> store \<Rightarrow> store option" where
  "handleResolveEmergency p t1 t2 s =
     (case updateDoc (deviceId p) (\<lambda>d. d\<lparr>status := SAFE, lastUpdate := t1\<rparr>) s of
        None \<Rightarrow> None
      | Some s1 \<Rightarrow> Some (addDoc
          [(''deviceId'', Str (deviceId p)), (''type'', Str ''EMERGENCY_RESOLVED''),
           (''timestamp'', Time t2), (''resolvedBy'', Str (role_name (role p)))] s1))"

section \<open>The client: subscription, alert overlay and countdown\<close>

datatype tab_t = TabDashboard | TabCaregivers | TabHistory

text \<open>
  The state of one running App: the profile, the last device snapshot pushed
  to it (\<^verbatim>\<open>device\<close>), the selected tab, and the \<^verbatim>\<open>countdown\<close> state of AlertOverlay,
  which exists only while the overlay is mounted (None otherwise).
\<close>

record client =
  profile :: profile
  device :: "device option"
  currentTab :: tab_t
  countdown :: "nat option"

text \<open>The JSX condition under which App mounts AlertOverlay.\<close>

definition overlayShown :: "device option \<Rightarrow> bool" where
  "overlayShown dv =
     (case dv of
        None \<Rightarrow> False
      | Some d \<Rightarrow> status d = FALL \<or> status d = SOS \<or> status d = AMBULANCE)"

text \<open>
  A render after a state change: AlertOverlay is mounted with
  \<^verbatim>\<open>useState(15)\<close> when the condition becomes true, keeps its state while the
  condition stays true, and is unmounted when it becomes false.
\<close>

definition render :: "client \<Rightarrow> client" where
  "render c =
     (if overlayShown (device c)
      then (case countdown c of None \<Rightarrow> c\<lparr>countdown := Some 15\<rparr> | Some n \<Rightarrow> c)
      else c\<lparr>countdown := None\<rparr>)"

text \<open>
  The device subscription callback, given the pushed document (None when
  \<^verbatim>\<open>docSnap.exists()\<close> is false): an existing document replaces \<^verbatim>\<open>device\<close>, a
  missing one changes nothing.
\<close>

definition onDeviceSnapshot :: "device option \<Rightarrow> client \<Rightarrow> client" where
  "onDeviceSnapshot snap c =
     (case snap of
        None \<Rightarrow> c
      | Some d \<Rightarrow> render (c\<lparr>device := Some d\<rparr>))"

definition isFall :: "client \<Rightarrow> bool" where
  "isFall c = (case device c of None \<Rightarrow> False | Some d \<Rightarrow> status d = FALL)"

definition isSOS :: "client \<Rightarrow> bool" where
  "isSOS c = (case device c of None \<Rightarrow> False | Some d \<Rightarrow> status d = SOS)"

definition isAmbulance :: "client \<Rightarrow> bool" where
  "isAmbulance c = (case device c of None \<Rightarrow> False | Some d \<Rightarrow> status d = AMBULANCE)"

text \<open>
  The store after a write that may be rejected and whose rejection nobody
  acts on (the promise of an \<^verbatim>\<open>onClick\<close> handler or of \<^verbatim>\<open>escalateToSOS()\<close>, which
  is not awaited; the simulator's \<^verbatim>\<open>try\<close>/\<^verbatim>\<open>catch\<close>): on rejection the store is as it
  was.
\<close>

definition settle :: "store option \<Rightarrow> store \<Rightarrow> store" where
  "settle r s = (case r of None \<Rightarrow> s | Some s' \<Rightarrow> s')"

text \<open>
  One second passing at a client. The effect of AlertOverlay keeps an interval
  only while \<^verbatim>\<open>isFall && countdown > 0\<close>; its callback sets the countdown to
  \<^verbatim>\<open>prev - 1\<close>, or, when \<^verbatim>\<open>prev <= 1\<close>, clears the interval, calls
  \<^verbatim>\<open>escalateToSOS()\<close> and sets it to 0. With no interval, nothing happens.
\<close>

definition tick :: "nat \<Rightarrow> nat \<Rightarrow> client \<times> store \<Rightarrow> client \<times> store" where
  "tick t1 t2 cs =
     (case cs of (c, s) \<Rightarrow>
        (case countdown c of
           None \<Rightarrow> (c, s)
         | Some n \<Rightarrow>
             if isFall c \<and> 0 < n
             then (if n \<le> 1
                   then (c\<lparr>countdown := Some 0\<rparr>, settle (escalateToSOS (profile c) t1 t2 s) s)
                   else (c\<lparr>countdown := Some (n - 1)\<rparr>, s))
             else (c, s)))"

text \<open>Several seconds passing, each with the server times its writes would get.\<close>

fun ticks :: "(nat \<times> nat) list \<Rightarrow> client \<times> store \<Rightarrow> client \<times> store" where
  "ticks [] cs = cs"
| "ticks ((t1, t2) # ts) cs = ticks ts (tick t1 t2 cs)"

text \<open>
  The four buttons of the client and the JSX conditions under which each is
  rendered: the SOS button in DashboardScreen (dashboard tab, device loaded,
  role elderly; no condition on the status: the dashboard stays rendered
  while the alert overlay is drawn over it), and the three buttons of
  AlertOverlay.
\<close>

datatype button = SOSButton | CancelButton | AmbulanceButton | ResolveButton

fun rendered :: "client \<Rightarrow> button \<Rightarrow> bool" where
  "rendered c SOSButton =
     (currentTab c = TabDashboard \<and> device c \<noteq> None \<and> role (profile c) = Elderly)"
| "rendered c CancelButton =
     (overlayShown (device c) \<and> isFall c \<and> role (profile c) = Elderly)"
| "rendered c AmbulanceButton =
     (overlayShown (device c) \<and> (isFall c \<or> isSOS c) \<and> role (profile c) = Caregiver)"
| "rendered c ResolveButton =
     (overlayShown (device c) \<and> (isSOS c \<or> isAmbulance c))"

fun onClick :: "button \<Rightarrow> profile \<Rightarrow> nat \<Rightarrow> nat \<Rightarrow> store \<Rightarrow> store option" where
  "onClick SOSButton = manualSOS"
| "onClick CancelButton = handleCancelFall"
| "onClick AmbulanceButton = handleRequestAmbulance"
| "onClick ResolveButton = handleResolveEmergency"

text \<open>
  A click on a button: possible only when the button is rendered (None
  otherwise); then the handler runs, with no further check.
\<close>

definition click :: "button \<Rightarrow> nat \<Rightarrow> nat \<Rightarrow> client \<times> store \<Rightarrow> (client \<times> store) option" where
  "click b t1 t2 cs =
     (case cs of (c, s) \<Rightarrow>
        if rendered c b then Some (c, settle (onClick b (profile c) t1 t2 s) s) else None)"

section \<open>The hardware simulator (ESP32Simulator)\<close>

text \<open>
  The state of the simulator panel. Its props are the device id \<open>did\<close>
  (\<^verbatim>\<open>profile.deviceId\<close>) and \<open>cur\<close> (\<^verbatim>\<open>currentDeviceState\<close>, the \<^verbatim>\<open>device\<close> state of the
  enclosing App).
\<close>

record simulator =
  sim_vitals :: vitals_t
  autoUpdate :: bool

text \<open>
  \<^verbatim>\<open>syncToFirebase(forcedStatus)\<close>: the status written is
  \<^verbatim>\<open>forcedStatus || currentDeviceState?.status || 'SAFE'\<close>; a rejected write is
  caught and logged.
\<close>

definition syncToFirebase ::
  "string \<Rightarrow> device option \<Rightarrow> simulator \<Rightarrow> status_t option \<Rightarrow> nat \<Rightarrow> store \<Rightarrow> store" where
  "syncToFirebase did cur sim forcedStatus t s =
     settle (updateDoc did
       (\<lambda>d. d\<lparr>vitals := sim_vitals sim,
               status := (case forcedStatus of
                            Some f \<Rightarrow> f
                          | None \<Rightarrow> (case cur of Some c \<Rightarrow> status c | None \<Rightarrow> SAFE)),
               lastUpdate := t\<rparr>) s) s"

text \<open>The effect on \<^verbatim>\<open>[vitals]\<close>: it runs after every change of the vitals state.\<close>

definition vitalsEffect :: "string \<Rightarrow> device option \<Rightarrow> simulator \<Rightarrow> nat \<Rightarrow> store \<Rightarrow> store" where
  "vitalsEffect did cur sim t s =
     (if autoUpdate sim then syncToFirebase did cur sim (Some SAFE) t s else s)"

definition setVitals ::
  "string \<Rightarrow> device option \<Rightarrow> vitals_t \<Rightarrow> nat \<Rightarrow> simulator \<times> store \<Rightarrow> simulator \<times> store" where
  "setVitals did cur v t ss =
     (case ss of (sim, s) \<Rightarrow>
        (sim\<lparr>sim_vitals := v\<rparr>, vitalsEffect did cur (sim\<lparr>sim_vitals := v\<rparr>) t s))"

text \<open>
  The 3-second interval of auto-fluctuate mode; \<open>k1\<close> and \<open>k2\<close> are the values of
  \<^verbatim>\<open>Math.floor(Math.random() * 5)\<close> and \<^verbatim>\<open>Math.floor(Math.random() * 3)\<close>.
\<close>

definition fluctuate :: "int \<Rightarrow> int \<Rightarrow> vitals_t \<Rightarrow> vitals_t" where
  "fluctuate k1 k2 prev =
     prev\<lparr>heartRate := max 60 (min 120 (heartRate prev + (k1 - 2))),
          spo2 := max 90 (min 100 (spo2 prev + (k2 - 1)))\<rparr>"

definition fluctuateTick ::
  "string \<Rightarrow> device option \<Rightarrow> int \<Rightarrow> int \<Rightarrow> nat \<Rightarrow> simulator \<times> store \<Rightarrow> simulator \<times> store" where
  "fluctuateTick did cur k1 k2 t ss =
     (case ss of (sim, s) \<Rightarrow>
        if autoUpdate sim then setVitals did cur (fluctuate k1 k2 (sim_vitals sim)) t (sim, s)
        else (sim, s))"

text \<open>
  \<^verbatim>\<open>triggerFall\<close> turns auto-fluctuate off, so the vitals effect that follows
  the change of the vitals writes nothing.
\<close>

definition triggerFall :: "string \<Rightarrow> nat \<Rightarrow> simulator \<times> store \<Rightarrow> simulator \<times> store" where
  "triggerFall did t ss =
     (case ss of (sim, s) \<Rightarrow>
        (sim\<lparr>autoUpdate := False, sim_vitals := (sim_vitals sim)\<lparr>heartRate := 110\<rparr>\<rparr>,
         settle (updateDoc did
           (\<lambda>d. d\<lparr>vitals := (sim_vitals sim)\<lparr>heartRate := 110\<rparr>, status := FALL,
                   lastUpdate := t\<rparr>) s) s))"

definition triggerSOS :: "string \<Rightarrow> nat \<Rightarrow> simulator \<times> store \<Rightarrow> simulator \<times> store" where
  "triggerSOS did t ss =
     (case ss of (sim, s) \<Rightarrow>
        (sim\<lparr>autoUpdate := False\<rparr>,
         settle (updateDoc did (\<lambda>d. d\<lparr>status := SOS, lastUpdate := t\<rparr>) s) s))"

text \<open>
  \<^verbatim>\<open>resetDevice\<close> turns auto-fluctuate on, sets the vitals and writes SAFE (server
  time \<open>t1\<close>); the vitals change then runs the vitals effect (server time \<open>t2\<close>).
\<close>

definition resetDevice ::
  "string \<Rightarrow> device option \<Rightarrow> nat \<Rightarrow> nat \<Rightarrow> simulator \<times> store \<Rightarrow> simulator \<times> store" where
  "resetDevice did cur t1 t2 ss =
     (case ss of (sim, s) \<Rightarrow>
        setVitals did cur \<lparr>heartRate = 72, spo2 = 99, battery = battery (sim_vitals sim)\<rparr> t2
          (sim\<lparr>autoUpdate := True\<rparr>,
           settle (updateDoc did (\<lambda>d. d\<lparr>status := SAFE, lastUpdate := t1\<rparr>) s) s))"

section \<open>One App: its events as a step function\<close>

text \<open>
  The events of one running App (client screens and the simulator panel it
  contains) that read or write a device document or the events collection: a
  push of the current device document, a push of some earlier committed
  document, a second passing, a click on a client button, and the
  simulator's buttons, slider, toggle and interval. Registration, pairing
  and the caregiver roster write neither the status of an existing device
  nor an event and are not steps here. Both server times are given with
  every step; a step uses as many as it writes. Other Apps on the same store
  are other instances of the same steps.
\<close>

datatype step =
    Push
  | Snapshot "device option"
  | Tick
  | Click button
  | SimFall
  | SimSOS
  | SimReset
  | SimFluctuate int int
  | SimSlider vitals_t
  | SimToggle

type_synonym app = "client \<times> simulator \<times> store"

fun app_step :: "step \<Rightarrow> nat \<Rightarrow> nat \<Rightarrow> app \<Rightarrow> app option" where
  "app_step Push t1 t2 (c, sim, s) =
     Some (onDeviceSnapshot (devices s (deviceId (profile c))) c, sim, s)"
| "app_step (Snapshot snap) t1 t2 (c, sim, s) = Some (onDeviceSnapshot snap c, sim, s)"
| "app_step Tick t1 t2 (c, sim, s) =
     (case tick t1 t2 (c, s) of (c', s') \<Rightarrow> Some (c', sim, s'))"
| "app_step (Click b) t1 t2 (c, sim, s) =
     (case click b t1 t2 (c, s) of
        None \<Rightarrow> None
      | Some (c', s') \<Rightarrow> Some (c', sim, s'))"
| "app_step SimFall t1 t2 (c, sim, s) =
     (case triggerFall (deviceId (profile c)) t1 (sim, s) of (sim', s') \<Rightarrow> Some (c, sim', s'))"
| "app_step SimSOS t1 t2 (c, sim, s) =
     (case triggerSOS (deviceId (profile c)) t1 (sim, s) of (sim', s') \<Rightarrow> Some (c, sim', s'))"
| "app_step SimReset t1 t2 (c, sim, s) =
     (case resetDevice (deviceId (profile c)) (device c) t1 t2 (sim, s) of
        (sim', s') \<Rightarrow> Some (c, sim', s'))"
| "app_step (SimFluctuate k1 k2) t1 t2 (c, sim, s) =
     (case fluctuateTick (deviceId (profile c)) (device c) k1 k2 t1 (sim, s) of
        (sim', s') \<Rightarrow> Some (c, sim', s'))"
| "app_step (SimSlider v) t1 t2 (c, sim, s) =
     (case setVitals (deviceId (profile c)) (device c) v t1 (sim, s) of
        (sim', s') \<Rightarrow> Some (c, sim', s'))"
| "app_step SimToggle t1 t2 (c, sim, s) = Some (c, sim\<lparr>autoUpdate := \<not> autoUpdate sim\<rparr>, s)"

fun run :: "(step \<times> nat \<times> nat) list \<Rightarrow> app \<Rightarrow> app option" where
  "run [] a = Some a"
| "run ((e, t1, t2) # es) a =
     (case app_step e t1 t2 a of None \<Rightarrow> None | Some a' \<Rightarrow> run es a')"

text \<open>The status of a device in the store.\<close>

definition statusOf :: "store \<Rightarrow> string \<Rightarrow> status_t option" where
  "statusOf s did = map_option status (devices s did)"

section \<open>Read side: per-device history and caregiver list\<close>

text \<open>
  \<^verbatim>\<open>Array.prototype.sort(cmp)\<close> is stable and puts \<open>a\<close> before \<open>b\<close> when
  \<open>cmp a b < 0\<close>: the stable insertion sort by the comparator.
\<close>

fun insert_by :: "('a \<Rightarrow> 'a \<Rightarrow> int) \<Rightarrow> 'a \<Rightarrow> 'a list \<Rightarrow> 'a list" where
  "insert_by cmp x [] = [x]"
| "insert_by cmp x (y # ys) =
     (if cmp x y \<le> 0 then x # y # ys else y # insert_by cmp x ys)"

definition js_sort :: "('a \<Rightarrow> 'a \<Rightarrow> int) \<Rightarrow> 'a list \<Rightarrow> 'a list" where
  "js_sort cmp xs = foldr (insert_by cmp) xs []"

text \<open>
  \<^verbatim>\<open>timestamp?.toMillis?.() || 0\<close>: the milliseconds of a timestamp field, and 0
  for an event with no timestamp.
\<close>

definition millis :: "event \<Rightarrow> int" where
  "millis e = (case field e ''timestamp'' of Some (Time t) \<Rightarrow> int t | _ \<Rightarrow> 0)"

definition myEvents :: "string \<Rightarrow> (nat \<times> event) list \<Rightarrow> (nat \<times> event) list" where
  "myEvents did allEvents =
     js_sort (\<lambda>a b. millis (snd b) - millis (snd a))
       (filter (\<lambda>e. field (snd e) ''deviceId'' = Some (Str did)) allEvents)"

definition myCaregivers :: "string \<Rightarrow> caregiver list \<Rightarrow> caregiver list" where
  "myCaregivers did allCaregivers =
     js_sort (\<lambda>a b. priority a - priority b)
       (filter (\<lambda>c. cg_deviceId c = did) allCaregivers)"

section \<open>Caregiver roster (CaregiversScreen)\<close>

text \<open>
  \<^verbatim>\<open>handleAdd\<close> takes the device id and the caregiver list the screen was given
  (the client's current \<^verbatim>\<open>caregivers\<close> state); \<open>name\<close> and \<open>phone\<close> are the form
  fields.
\<close>

definition handleAdd :: "string \<Rightarrow> caregiver list \<Rightarrow> string \<Rightarrow> string \<Rightarrow> store \<Rightarrow> store" where
  "handleAdd did cgs name phone s =
     (if name = [] \<or> phone = [] then s
      else s\<lparr>caregivers := caregivers s @
                [\<lparr>cg_id = nextId s, cg_deviceId = did, cg_name = name, cg_phone = phone,
                  priority = int (length cgs) + 1\<rparr>],
              nextId := Suc (nextId s)\<rparr>)"

definition handleRemove :: "nat \<Rightarrow> store \<Rightarrow> store" where
  "handleRemove i s = s\<lparr>caregivers := filter (\<lambda>c. cg_id c \<noteq> i) (caregivers s)\<rparr>"

text \<open>
  An add made by a client whose \<^verbatim>\<open>caregivers\<close> state is up to date with the
  store (the caregivers subscription has delivered the current collection).
\<close>

definition addCaregiver :: "string \<Rightarrow> string \<Rightarrow> string \<Rightarrow> store \<Rightarrow> store" where
  "addCaregiver did name phone s = handleAdd did (myCaregivers did (caregivers s)) name phone s"

section \<open>The transition table of the specification\<close>

text \<open>
  The table of section 4.1 of the specification, as written there: for each
  request of a client, the roles and states it is permitted from.
\<close>

fun spec_permits :: "button \<Rightarrow> role_t \<Rightarrow> status_t \<Rightarrow> bool" where
  "spec_permits SOSButton r st = (r = Elderly \<and> st = SAFE)"
| "spec_permits CancelButton r st = (r = Elderly \<and> st = FALL)"
| "spec_permits AmbulanceButton r st = (r = Caregiver \<and> (st = FALL \<or> st = SOS))"
| "spec_permits ResolveButton r st = (st = SOS \<or> st = AMBULANCE)"

text \<open>
  The resulting state and the event type the table gives for each step that
  is a transition of the table made by the client; None for the steps the
  table gives no event type (device origin) or does not list.
\<close>

fun spec_target :: "step \<Rightarrow> status_t option" where
  "spec_target (Click SOSButton) = Some SOS"
| "spec_target Tick = Some SOS"
| "spec_target (Click CancelButton) = Some SAFE"
| "spec_target (Click AmbulanceButton) = Some AMBULANCE"
| "spec_target (Click ResolveButton) = Some SAFE"
| "spec_target e = None"

fun spec_event_type :: "step \<Rightarrow> string option" where
  "spec_event_type (Click SOSButton) = Some ''MANUAL_SOS''"
| "spec_event_type Tick = Some ''FALL_ESCALATED''"
| "spec_event_type (Click CancelButton) = Some ''FALSE_ALARM''"
| "spec_event_type (Click AmbulanceButton) = Some ''AMBULANCE_REQUESTED''"
| "spec_event_type (Click ResolveButton) = Some ''EMERGENCY_RESOLVED''"
| "spec_event_type e = None"

section \<open>Example states\<close>

definition demoId :: string where
  "demoId = ''ESP32-A1B2C3''"

definition demoDevice :: "status_t \<Rightarrow> nat \<Rightarrow> device" where
  "demoDevice st t =
     \<lparr>status = st, vitals = \<lparr>heartRate = 75, spo2 = 98, battery = 100\<rparr>, lastUpdate = t\<rparr>"

definition demoStore :: "status_t \<Rightarrow> store" where
  "demoStore st =
     \<lparr>devices = [demoId \<mapsto> demoDevice st 0], events = [], caregivers = [], nextId = 0\<rparr>"

definition demoClient :: "role_t \<Rightarrow> device option \<Rightarrow> nat option \<Rightarrow> client" where
  "demoClient r dv cd =
     \<lparr>profile = \<lparr>role = r, deviceId = demoId\<rparr>, device = dv, currentTab = TabDashboard,
      countdown = cd\<rparr>"

definition demoSim :: simulator where
  "demoSim = \<lparr>sim_vitals = \<lparr>heartRate = 75, spo2 = 98, battery = 82\<rparr>, autoUpdate = False\<rparr>"

text \<open>The store \<open>demoStore FALL\<close> after the wearer's cancel at server times 7 and 8.\<close>

definition demoCancelled :: store where
  "demoCancelled =
     \<lparr>devices = [demoId \<mapsto> demoDevice SAFE 7],
      events = [(0, [(''deviceId'', Str demoId), (''type'', Str ''FALSE_ALARM''),
                     (''timestamp'', Time 8), (''status'', Str ''RESOLVED'')])],
      caregivers = [], nextId = 1\<rparr>"

section \<open>Steps that show a client no FALL\<close>

text \<open>
  The steps of a client's timer and device subscription during which it is
  not shown a FALL: a second passing, and a push of a missing document or of
  a document whose status is not FALL.
\<close>

fun awayFromFall :: "step \<Rightarrow> bool" where
  "awayFromFall Tick = True"
| "awayFromFall (Snapshot None) = True"
| "awayFromFall (Snapshot (Some d)) = (status d \<noteq> FALL)"
| "awayFromFall e = False"

text \<open>
  A pushed events collection: four events of the example device, one of them
  with no timestamp yet and two of the same time, and one event of another
  device.
\<close>

definition demoEvents :: "(nat \<times> event) list" where
  "demoEvents =
     [(0, [(''deviceId'', Str demoId), (''type'', Str ''MANUAL_SOS''), (''timestamp'', Time 5)]),
      (1, [(''deviceId'', Str ''ESP32-ZZZZZZ''), (''type'', Str ''MANUAL_SOS''),
           (''timestamp'', Time 6)]),
      (2, [(''deviceId'', Str demoId), (''type'', Str ''EMERGENCY_RESOLVED'')]),
      (3, [(''deviceId'', Str demoId), (''type'', Str ''FALL_ESCALATED''), (''timestamp'', Time 9)]),
      (4, [(''deviceId'', Str demoId), (''type'', Str ''FALSE_ALARM''), (''timestamp'', Time 5)])]"

section \<open>Basic facts about the store primitives\<close>

lemmas handler_defs = manualSOS_def escalateToSOS_def handleCancelFall_def
  handleRequestAmbulance_def handleResolveEmergency_def updateDoc_def addDoc_def

lemmas demo_defs = demoId_def demoDevice_def demoStore_def demoClient_def demoSim_def
  demoCancelled_def

lemma updateDoc_Some:
  "devices s did = Some d \<Longrightarrow>
   updateDoc did f s = Some (s\<lparr>devices := (devices s)(did \<mapsto> f d)\<rparr>)"
  by (simp add: updateDoc_def)

lemma updateDoc_None: "devices s did = None \<Longrightarrow> updateDoc did f s = None"
  by (simp add: updateDoc_def)

lemmas view_defs = isFall_def isSOS_def isAmbulance_def overlayShown_def

lemma rendered_iff_spec:
  "device c = Some d \<Longrightarrow> b \<noteq> SOSButton \<Longrightarrow>
   rendered c b = spec_permits b (role (profile c)) (status d)"
  by (cases b) (auto simp: view_defs)

lemma rendered_needs_device: "device c = None \<Longrightarrow> \<not> rendered c b"
  by (cases b) (auto simp: view_defs)

lemma click_not_rendered: "\<not> rendered c b \<Longrightarrow> click b t1 t2 (c, s) = None"
  by (simp add: click_def)

lemma onClick_writes:
  assumes "devices s (deviceId p) = Some d"
  shows "\<exists>ev. onClick b p t1 t2 s =
           Some (s\<lparr>devices := (devices s)(deviceId p \<mapsto>
                      d\<lparr>status := the (spec_target (Click b)), lastUpdate := t1\<rparr>),
                   events := events s @ [(nextId s, ev)], nextId := Suc (nextId s)\<rparr>)
         \<and> field ev ''type'' = map_option Str (spec_event_type (Click b))
         \<and> field ev ''deviceId'' = Some (Str (deviceId p))
         \<and> field ev ''timestamp'' = Some (Time t2)"
  using assms
  apply (cases b)
  apply (simp_all add: handler_defs field_def)
  apply (rule exI, rule conjI, rule refl, simp)+
  done

lemma profile_onDeviceSnapshot [simp]: "profile (onDeviceSnapshot snap c) = profile c"
  by (simp add: onDeviceSnapshot_def render_def split: option.splits)

lemma currentTab_onDeviceSnapshot [simp]: "currentTab (onDeviceSnapshot snap c) = currentTab c"
  by (simp add: onDeviceSnapshot_def render_def split: option.splits)

lemma device_onDeviceSnapshot [simp]: "device (onDeviceSnapshot (Some d) c) = Some d"
  by (simp add: onDeviceSnapshot_def render_def split: option.splits)

lemma onClick_rejects: "devices s (deviceId p) = None \<Longrightarrow> onClick b p t1 t2 s = None"
  by (cases b) (simp_all add: handler_defs)

lemma tick_idle:
  "\<not> isFall c \<or> countdown c = None \<or> countdown c = Some 0 \<Longrightarrow> tick t1 t2 (c, s) = (c, s)"
  by (auto simp: tick_def split: option.splits)

lemma ticks_idle:
  "\<not> isFall c \<or> countdown c = None \<or> countdown c = Some 0 \<Longrightarrow> ticks ts (c, s) = (c, s)"
  by (induction ts) (auto simp: tick_idle)

lemma tick_dec:
  "isFall c \<Longrightarrow> countdown c = Some n \<Longrightarrow> 1 < n \<Longrightarrow>
   tick t1 t2 (c, s) = (c\<lparr>countdown := Some (n - 1)\<rparr>, s)"
  by (simp add: tick_def)

lemma tick_fire:
  "isFall c \<Longrightarrow> countdown c = Some (Suc 0) \<Longrightarrow>
   tick t1 t2 (c, s) = (c\<lparr>countdown := Some 0\<rparr>, settle (escalateToSOS (profile c) t1 t2 s) s)"
  by (simp add: tick_def)

lemma isFall_countdown_update [simp]: "isFall (c\<lparr>countdown := x\<rparr>) = isFall c"
  by (simp add: isFall_def)

lemma ticks_dec:
  "isFall c \<Longrightarrow> countdown c = Some n \<Longrightarrow> length ts < n \<Longrightarrow>
   ticks ts (c, s) = (c\<lparr>countdown := Some (n - length ts)\<rparr>, s)"
proof (induction ts arbitrary: c n)
  case Nil
  then show ?case by simp
next
  case (Cons t ts)
  obtain t1 t2 where t: "t = (t1, t2)" by (cases t)
  from Cons.prems have n: "1 < n" by simp
  have "ticks (t # ts) (c, s) = ticks ts (c\<lparr>countdown := Some (n - 1)\<rparr>, s)"
    using Cons.prems n by (simp add: t tick_dec)
  also have "\<dots> = (c\<lparr>countdown := Some (n - 1), countdown := Some (n - 1 - length ts)\<rparr>, s)"
    using Cons.prems by (intro Cons.IH) auto
  finally show ?case by simp
qed

lemma ticks_append: "ticks (xs @ ys) cs = ticks ys (ticks xs cs)"
  by (induction xs cs rule: ticks.induct) simp_all

lemma escalateToSOS_Some:
  "devices s (deviceId p) = Some d \<Longrightarrow>
   escalateToSOS p t1 t2 s =
     Some (s\<lparr>devices := (devices s)(deviceId p \<mapsto> d\<lparr>status := SOS, lastUpdate := t1\<rparr>),
            events := events s @
              [(nextId s, [(''deviceId'', Str (deviceId p)), (''type'', Str ''FALL_ESCALATED''),
                           (''timestamp'', Time t2), (''status'', Str ''ACTIVE'')])],
            nextId := Suc (nextId s)\<rparr>)"
  by (simp add: handler_defs)

lemma run_append:
  "run (xs @ ys) a = (case run xs a of None \<Rightarrow> None | Some a' \<Rightarrow> run ys a')"
  by (induction xs a rule: run.induct) (simp_all split: option.splits)

lemma run_ticks:
  "run (map (Pair Tick) ts) (c, sim, s) =
     Some (fst (ticks ts (c, s)), sim, snd (ticks ts (c, s)))"
proof (induction ts arbitrary: c s)
  case Nil
  show ?case by simp
next
  case (Cons t ts)
  obtain t1 t2 where t: "t = (t1, t2)" by (cases t)
  obtain c' s' where cs: "tick t1 t2 (c, s) = (c', s')" by (cases "tick t1 t2 (c, s)")
  show ?case by (simp add: t cs Cons.IH)
qed

lemma isFall_onDeviceSnapshot [simp]:
  "isFall (onDeviceSnapshot (Some d) c) = (status d = FALL)"
  by (simp add: isFall_def)

lemma onDeviceSnapshot_None [simp]: "onDeviceSnapshot None c = c"
  by (simp add: onDeviceSnapshot_def)

lemma run_awayFromFall:
  "\<not> isFall c \<Longrightarrow> list_all awayFromFall (map fst es) \<Longrightarrow>
   \<exists>c'. run es (c, sim, s) = Some (c', sim, s) \<and> \<not> isFall c'"
proof (induction es arbitrary: c)
  case Nil
  then show ?case by simp
next
  case (Cons x es)
  obtain e t1 t2 where x: "x = (e, t1, t2)" by (cases x)
  from Cons.prems have q: "awayFromFall e" and rest: "list_all awayFromFall (map fst es)"
    by (simp_all add: x)
  from q Cons.prems(1) have "\<exists>c1. app_step e t1 t2 (c, sim, s) = Some (c1, sim, s) \<and> \<not> isFall c1"
  proof (cases e)
    case Tick
    with Cons.prems(1) show ?thesis by (simp add: tick_idle)
  next
    case (Snapshot snap)
    with q Cons.prems(1) show ?thesis
      by (cases snap) simp_all
  qed simp_all
  then obtain c1 where s1: "app_step e t1 t2 (c, sim, s) = Some (c1, sim, s)"
    and f1: "\<not> isFall c1" by blast
  from Cons.IH [OF f1 rest] show ?case by (simp add: x s1)
qed

lemma click_Some:
  "click b t1 t2 (c, s) = Some (c', s') \<Longrightarrow>
   rendered c b \<and> c' = c \<and> s' = settle (onClick b (profile c) t1 t2 s) s"
  by (auto simp: click_def split: if_splits)

lemma click_rendered:
  "rendered c b \<Longrightarrow> click b t1 t2 (c, s) = Some (c, settle (onClick b (profile c) t1 t2 s) s)"
  by (simp add: click_def)

lemma tick_store:
  "snd (tick t1 t2 (c, s)) = s \<or>
   (isFall c \<and> countdown c = Some 1 \<and>
    snd (tick t1 t2 (c, s)) = settle (escalateToSOS (profile c) t1 t2 s) s)"
  by (auto simp: tick_def split: option.splits)

lemma events_settle_updateDoc [simp]: "events (settle (updateDoc did f s) s) = events s"
  by (simp add: settle_def updateDoc_def split: option.splits)

lemma events_syncToFirebase [simp]: "events (syncToFirebase did cur sim fs t s) = events s"
  by (simp add: syncToFirebase_def)

lemma events_vitalsEffect [simp]: "events (vitalsEffect did cur sim t s) = events s"
  by (simp add: vitalsEffect_def)

lemma sim_step_events:
  "events (snd (triggerFall did t (sim, s))) = events s"
  "events (snd (triggerSOS did t (sim, s))) = events s"
  "events (snd (resetDevice did cur t1 t2 (sim, s))) = events s"
  "events (snd (fluctuateTick did cur k1 k2 t (sim, s))) = events s"
  "events (snd (setVitals did cur v t (sim, s))) = events s"
  by (simp_all add: triggerFall_def triggerSOS_def resetDevice_def fluctuateTick_def
      setVitals_def)

lemma statusOf_settle_onClick:
  "devices s (deviceId p) = Some d \<Longrightarrow>
   statusOf (settle (onClick b p t1 t2 s) s) (deviceId p) = spec_target (Click b)"
  by (cases b) (simp_all add: handler_defs settle_def statusOf_def)

lemma statusOf_settle_updateDoc:
  "statusOf (settle (updateDoc did f s) s) did =
     (case devices s did of None \<Rightarrow> None | Some d \<Rightarrow> Some (status (f d)))"
  by (simp add: settle_def updateDoc_def statusOf_def split: option.splits)

section \<open>The escalation countdown\<close>

text \<open>
  A client whose overlay is mounted by the observation of a FALL (it was not
  mounted before) counts 15 seconds: the first 14 leave the store as it is,
  the fifteenth writes status SOS and appends one FALL_ESCALATED event with
  status ACTIVE, and no later second writes anything, however many follow.
\<close>

theorem fresh_fall_countdown:
  assumes fresh: "countdown c = None" and fall: "status d = FALL"
    and dev: "devices s (deviceId (profile c)) = Some d'"
    and before: "length ts = 14"
  shows "ticks ts (onDeviceSnapshot (Some d) c, s) =
           ((onDeviceSnapshot (Some d) c)\<lparr>countdown := Some 1\<rparr>, s)
       \<and> ticks (ts @ (t1, t2) # ts') (onDeviceSnapshot (Some d) c, s) =
           ((onDeviceSnapshot (Some d) c)\<lparr>countdown := Some 0\<rparr>,
            s\<lparr>devices := (devices s)(deviceId (profile c) \<mapsto> d'\<lparr>status := SOS, lastUpdate := t1\<rparr>),
              events := events s @
                [(nextId s, [(''deviceId'', Str (deviceId (profile c))),
                             (''type'', Str ''FALL_ESCALATED''),
                             (''timestamp'', Time t2), (''status'', Str ''ACTIVE'')])],
              nextId := Suc (nextId s)\<rparr>)"
proof -
  define c1 where "c1 = onDeviceSnapshot (Some d) c"
  have f: "isFall c1" using fall by (simp add: c1_def isFall_def)
  have n: "countdown c1 = Some 15"
    using fresh fall by (simp add: c1_def onDeviceSnapshot_def render_def overlayShown_def)
  have p: "profile c1 = profile c" by (simp add: c1_def)
  have a: "ticks ts (c1, s) = (c1\<lparr>countdown := Some 1\<rparr>, s)"
    using ticks_dec [OF f n, of ts s] before by simp
  have b: "tick t1 t2 (c1\<lparr>countdown := Some (Suc 0)\<rparr>, s) =
      (c1\<lparr>countdown := Some 0\<rparr>, settle (escalateToSOS (profile c) t1 t2 s) s)"
    using f by (simp add: tick_fire p)
  have c: "ticks ts' (c1\<lparr>countdown := Some 0\<rparr>, s'') = (c1\<lparr>countdown := Some 0\<rparr>, s'')" for s''
    by (rule ticks_idle) simp
  show ?thesis
    unfolding c1_def [symmetric]
    by (simp add: ticks_append a b c escalateToSOS_Some [OF dev] settle_def)
qed

theorem fresh_fall_countdown_witness:
  "countdown (demoClient Elderly None None) = None
   \<and> status (demoDevice FALL 0) = FALL
   \<and> devices (demoStore FALL) demoId = Some (demoDevice FALL 0)
   \<and> length (replicate 14 (10::nat, 11::nat)) = 14
   \<and> snd (ticks (replicate 14 (10, 11) @ (12, 13) # replicate 5 (14, 15))
        (onDeviceSnapshot (Some (demoDevice FALL 0)) (demoClient Elderly None None),
         demoStore FALL)) =
       \<lparr>devices = [demoId \<mapsto> demoDevice SOS 12],
        events = [(0, [(''deviceId'', Str demoId), (''type'', Str ''FALL_ESCALATED''),
                       (''timestamp'', Time 13), (''status'', Str ''ACTIVE'')])],
        caregivers = [], nextId = 1\<rparr>"
proof -
  let ?c = "demoClient Elderly None None"
  have h1: "countdown ?c = None" by (simp add: demoClient_def)
  have h2: "status (demoDevice FALL 0) = FALL" by (simp add: demoDevice_def)
  have h3: "devices (demoStore FALL) (deviceId (profile ?c)) = Some (demoDevice FALL 0)"
    by (simp add: demoStore_def demoClient_def)
  have h4: "length (replicate 14 (10::nat, 11::nat)) = 14" by simp
  have h3': "devices (demoStore FALL) demoId = Some (demoDevice FALL 0)"
    by (simp add: demoStore_def)
  note c = fresh_fall_countdown [OF h1 h2 h3 h4, of 12 13 "replicate 5 (14, 15)", THEN conjunct2]
  have "snd (ticks (replicate 14 (10, 11) @ (12, 13) # replicate 5 (14, 15))
        (onDeviceSnapshot (Some (demoDevice FALL 0)) ?c, demoStore FALL)) =
       \<lparr>devices = [demoId \<mapsto> demoDevice SOS 12],
        events = [(0, [(''deviceId'', Str demoId), (''type'', Str ''FALL_ESCALATED''),
                       (''timestamp'', Time 13), (''status'', Str ''ACTIVE'')])],
        caregivers = [], nextId = 1\<rparr>"
    unfolding c by (simp add: demo_defs)
  with h1 h2 h3' h4 show ?thesis by (intro conjI)
qed

text \<open>
  Claim C1 says this of every client that observes FALL. AlertOverlay
  initialises the countdown only when it is mounted, and it stays mounted
  while the status moves among FALL, SOS and AMBULANCE. A wearer's client
  that has escalated one fall (countdown 0, status SOS) and then observes a
  second FALL, set by the simulator's fall trigger, keeps the countdown 0: no
  interval is created, and however many seconds pass the status stays FALL
  and no second FALL_ESCALATED event is appended.
\<close>

theorem C1_stale_countdown_never_escalates:
  "run ([(Push, 0, 0)] @ replicate 15 (Tick, 10, 11) @
        [(Push, 0, 0), (SimFall, 20, 20), (Push, 0, 0)] @
        map (Pair Tick) ts)
     (demoClient Elderly None None, demoSim, demoStore FALL) =
   Some (demoClient Elderly
           (Some \<lparr>status = FALL, vitals = \<lparr>heartRate = 110, spo2 = 98, battery = 82\<rparr>,
                  lastUpdate = 20\<rparr>) (Some 0),
         \<lparr>sim_vitals = \<lparr>heartRate = 110, spo2 = 98, battery = 82\<rparr>, autoUpdate = False\<rparr>,
         \<lparr>devices = [demoId \<mapsto>
             \<lparr>status = FALL, vitals = \<lparr>heartRate = 110, spo2 = 98, battery = 82\<rparr>,
              lastUpdate = 20\<rparr>],
          events = [(0, [(''deviceId'', Str demoId), (''type'', Str ''FALL_ESCALATED''),
                         (''timestamp'', Time 11), (''status'', Str ''ACTIVE'')])],
          caregivers = [], nextId = 1\<rparr>)"
proof -
  let ?c = "demoClient Elderly
           (Some \<lparr>status = FALL, vitals = \<lparr>heartRate = 110, spo2 = 98, battery = 82\<rparr>,
                  lastUpdate = 20\<rparr>) (Some 0)"
  let ?sim = "\<lparr>sim_vitals = \<lparr>heartRate = 110, spo2 = 98, battery = 82\<rparr>, autoUpdate = False\<rparr>"
  let ?s = "\<lparr>devices = [demoId \<mapsto>
             \<lparr>status = FALL, vitals = \<lparr>heartRate = 110, spo2 = 98, battery = 82\<rparr>,
              lastUpdate = 20\<rparr>],
          events = [(0, [(''deviceId'', Str demoId), (''type'', Str ''FALL_ESCALATED''),
                         (''timestamp'', Time 11), (''status'', Str ''ACTIVE'')])],
          caregivers = [], nextId = 1\<rparr>"
  have prefix: "run ([(Push, 0, 0)] @ replicate 15 (Tick, 10, 11) @
        [(Push, 0, 0), (SimFall, 20, 20), (Push, 0, 0)])
     (demoClient Elderly None None, demoSim, demoStore FALL) = Some (?c, ?sim, ?s)"
    by (simp add: eval_nat_numeral demo_defs onDeviceSnapshot_def render_def view_defs tick_def
        handler_defs settle_def triggerFall_def)
  have idle: "ticks ts (?c, ?s) = (?c, ?s)"
    by (rule ticks_idle) (simp add: demoClient_def)
  have e: "[(Push, 0, 0)] @ replicate 15 (Tick, 10, 11) @
        [(Push, 0, 0), (SimFall, 20, 20), (Push, 0, 0)] @ map (Pair Tick) ts =
      ([(Push, 0, 0)] @ replicate 15 (Tick, 10, 11) @
        [(Push, 0, 0), (SimFall, 20, 20), (Push, 0, 0)]) @ map (Pair Tick) ts"
    by (simp only: append_assoc)
  show ?thesis
    unfolding e
    by (subst run_append) (simp only: prefix option.case run_ticks idle fst_conv snd_conv)
qed

section \<open>Guards of the transition requests\<close>

text \<open>
  Claim C2, as stated, fails: the handlers check neither the status nor the
  role, and nothing returns a PermissionDenied or InvalidState outcome. Two
  requests that the table of section 4.1 does not permit and that are
  written all the same. A wearer's client still showing FALL, while the
  store already holds SOS (another client escalated), issues cancel-fall:
  the status is written to SAFE and a FALSE_ALARM event is appended. And a
  wearer whose client shows AMBULANCE, as the store holds, presses the SOS
  button of the dashboard: the status is written to SOS and a MANUAL_SOS
  event is appended.
\<close>

theorem C2_counterexample:
  "\<not> spec_permits CancelButton Elderly SOS
   \<and> statusOf (demoStore SOS) demoId = Some SOS
   \<and> click CancelButton 7 8
        (demoClient Elderly (Some (demoDevice FALL 0)) (Some 3), demoStore SOS) =
      Some (demoClient Elderly (Some (demoDevice FALL 0)) (Some 3),
        \<lparr>devices = [demoId \<mapsto> demoDevice SAFE 7],
         events = [(0, [(''deviceId'', Str demoId), (''type'', Str ''FALSE_ALARM''),
                        (''timestamp'', Time 8), (''status'', Str ''RESOLVED'')])],
         caregivers = [], nextId = 1\<rparr>)
   \<and> \<not> spec_permits SOSButton Elderly AMBULANCE
   \<and> statusOf (demoStore AMBULANCE) demoId = Some AMBULANCE
   \<and> click SOSButton 7 8
        (demoClient Elderly (Some (demoDevice AMBULANCE 0)) (Some 15), demoStore AMBULANCE) =
      Some (demoClient Elderly (Some (demoDevice AMBULANCE 0)) (Some 15),
        \<lparr>devices = [demoId \<mapsto> demoDevice SOS 7],
         events = [(0, [(''deviceId'', Str demoId), (''type'', Str ''MANUAL_SOS''),
                        (''timestamp'', Time 8), (''status'', Str ''ACTIVE'')])],
         caregivers = [], nextId = 1\<rparr>)"
  by (simp add: click_def view_defs handler_defs settle_def demo_defs statusOf_def)

text \<open>
  Claim C2, amended. The only guard is the rendering of the buttons, decided
  by the client's role and the status of the device snapshot it holds. A
  request whose button is not rendered cannot be issued, so it writes
  nothing. The cancel, ambulance and resolve buttons are rendered exactly
  when the table of section 4.1 permits the request for that role and that
  observed status; the SOS button is rendered for the wearer on the dashboard
  whatever the observed status. A rendered request, when the device document
  exists, always performs its status write and its one event append,
  whatever status the store holds at that moment. The timer writes only when
  the client observes FALL and its countdown is at 1.
\<close>

theorem C2_requests_gated_by_rendering_only:
  "(\<not> rendered c b \<longrightarrow> click b t1 t2 (c, s) = None)
   \<and> (b \<noteq> SOSButton \<longrightarrow>
        rendered c b =
          (\<exists>d. device c = Some d \<and> spec_permits b (role (profile c)) (status d)))
   \<and> rendered c SOSButton =
        (currentTab c = TabDashboard \<and> device c \<noteq> None \<and> role (profile c) = Elderly)
   \<and> (rendered c b \<and> devices s (deviceId (profile c)) \<noteq> None \<longrightarrow>
        (\<exists>s'. click b t1 t2 (c, s) = Some (c, s')
           \<and> statusOf s' (deviceId (profile c)) = spec_target (Click b)
           \<and> length (events s') = Suc (length (events s))))
   \<and> (snd (tick t1 t2 (c, s)) \<noteq> s \<longrightarrow> isFall c \<and> countdown c = Some 1)"
proof -
  have p1: "\<not> rendered c b \<longrightarrow> click b t1 t2 (c, s) = None"
    by (simp add: click_not_rendered)
  have p2: "b \<noteq> SOSButton \<longrightarrow>
        rendered c b =
          (\<exists>d. device c = Some d \<and> spec_permits b (role (profile c)) (status d))"
  proof (cases "device c")
    case None
    then show ?thesis by (simp add: rendered_needs_device)
  next
    case (Some d)
    then show ?thesis by (simp add: rendered_iff_spec)
  qed
  have p3: "rendered c SOSButton =
        (currentTab c = TabDashboard \<and> device c \<noteq> None \<and> role (profile c) = Elderly)"
    by simp
  have p4: "rendered c b \<and> devices s (deviceId (profile c)) \<noteq> None \<longrightarrow>
        (\<exists>s'. click b t1 t2 (c, s) = Some (c, s')
           \<and> statusOf s' (deviceId (profile c)) = spec_target (Click b)
           \<and> length (events s') = Suc (length (events s)))"
  proof
    assume a: "rendered c b \<and> devices s (deviceId (profile c)) \<noteq> None"
    then obtain d where d: "devices s (deviceId (profile c)) = Some d" by auto
    from onClick_writes [OF d, of b t1 t2] obtain ev where
      w: "onClick b (profile c) t1 t2 s =
             Some (s\<lparr>devices := (devices s)(deviceId (profile c) \<mapsto>
                        d\<lparr>status := the (spec_target (Click b)), lastUpdate := t1\<rparr>),
                     events := events s @ [(nextId s, ev)], nextId := Suc (nextId s)\<rparr>)"
      by blast
    have t: "spec_target (Click b) = Some (the (spec_target (Click b)))" by (cases b) simp_all
    show "\<exists>s'. click b t1 t2 (c, s) = Some (c, s')
             \<and> statusOf s' (deviceId (profile c)) = spec_target (Click b)
             \<and> length (events s') = Suc (length (events s))"
      using a t by (simp add: click_rendered w settle_def statusOf_def)
  qed
  have p5: "snd (tick t1 t2 (c, s)) \<noteq> s \<longrightarrow> isFall c \<and> countdown c = Some 1"
    using tick_store [of t1 t2 c s] by blast
  from p1 p2 p3 p4 p5 show ?thesis by (intro conjI)
qed

theorem C2_witness:
  "\<not> rendered (demoClient Caregiver (Some (demoDevice FALL 0)) (Some 15)) CancelButton
   \<and> click CancelButton 7 8
        (demoClient Caregiver (Some (demoDevice FALL 0)) (Some 15), demoStore FALL) = None
   \<and> rendered (demoClient Elderly (Some (demoDevice FALL 0)) (Some 3)) CancelButton
   \<and> devices (demoStore SOS)
        (deviceId (profile (demoClient Elderly (Some (demoDevice FALL 0)) (Some 3)))) \<noteq> None
   \<and> (\<exists>s'. click CancelButton 7 8
              (demoClient Elderly (Some (demoDevice FALL 0)) (Some 3), demoStore SOS) =
              Some (demoClient Elderly (Some (demoDevice FALL 0)) (Some 3), s')
          \<and> statusOf s' (deviceId (profile (demoClient Elderly (Some (demoDevice FALL 0)) (Some 3))))
              = spec_target (Click CancelButton)
          \<and> length (events s') = Suc (length (events (demoStore SOS))))"
proof -
  let ?cg = "demoClient Caregiver (Some (demoDevice FALL 0)) (Some 15)"
  let ?wr = "demoClient Elderly (Some (demoDevice FALL 0)) (Some 3)"
  have h1: "\<not> rendered ?cg CancelButton" by (simp add: demoClient_def)
  have h2: "rendered ?wr CancelButton" by (simp add: view_defs demoClient_def demoDevice_def)
  have h3: "devices (demoStore SOS) (deviceId (profile ?wr)) \<noteq> None"
    by (simp add: demoClient_def demoStore_def)
  note a = C2_requests_gated_by_rendering_only [of ?cg CancelButton 7 8 "demoStore FALL",
      THEN conjunct1, THEN mp, OF h1]
  note b = C2_requests_gated_by_rendering_only [of ?wr CancelButton 7 8 "demoStore SOS",
      THEN conjunct2, THEN conjunct2, THEN conjunct2, THEN conjunct1, THEN mp,
      OF conjI [OF h2 h3]]
  from h1 a h2 h3 b show ?thesis by (intro conjI)
qed

section \<open>Pairing of status writes and events\<close>

text \<open>
  Claim C3, as stated, fails: the simulator writes the status and never
  appends an event. Its reset takes a device from SOS to SAFE, a transition
  that is not a vitals-only update, and the events stay as they were (here:
  none).
\<close>

theorem C3_counterexample:
  "statusOf (demoStore SOS) demoId = Some SOS
   \<and> app_step SimReset 5 6
        (demoClient Elderly (Some (demoDevice SOS 0)) (Some 15), demoSim, demoStore SOS) =
      Some (demoClient Elderly (Some (demoDevice SOS 0)) (Some 15),
            \<lparr>sim_vitals = \<lparr>heartRate = 72, spo2 = 99, battery = 82\<rparr>, autoUpdate = True\<rparr>,
            \<lparr>devices = [demoId \<mapsto>
                \<lparr>status = SAFE, vitals = \<lparr>heartRate = 72, spo2 = 99, battery = 82\<rparr>,
                 lastUpdate = 6\<rparr>],
             events = [], caregivers = [], nextId = 0\<rparr>)"
  by (simp add: resetDevice_def setVitals_def vitalsEffect_def syncToFirebase_def updateDoc_def
      settle_def demo_defs statusOf_def)

text \<open>
  Claim C3, amended. Every step of the client that writes the status (manual
  SOS, countdown expiry, cancel, ambulance request, resolve) sets the status
  the table of section 4.1 gives and appends exactly one event, for the same
  device, whose type is the one the table gives; when the device document
  does not exist, or the timer does not fire, it writes nothing at all. The
  steps of the subscription and of the simulator (fall, SOS, reset, vitals
  changes) append no event, whatever they write to the status.
\<close>

theorem C3_client_transitions_logged_simulator_not:
  assumes "app_step e t1 t2 (c, sim, s) = Some (c', sim', s')"
  shows "case spec_event_type e of
           Some ty \<Rightarrow>
             s' = s \<or>
             (statusOf s' (deviceId (profile c)) = spec_target e
              \<and> (\<exists>ev. events s' = events s @ [(nextId s, ev)]
                     \<and> field ev ''type'' = Some (Str ty)
                     \<and> field ev ''deviceId'' = Some (Str (deviceId (profile c)))))
         | None \<Rightarrow> events s' = events s"
proof (cases e)
  case Tick
  from assms Tick have s': "s' = snd (tick t1 t2 (c, s))"
    by (auto split: prod.splits)
  show ?thesis
  proof (cases "s' = s")
    case True
    then show ?thesis by (simp add: Tick)
  next
    case False
    with tick_store [of t1 t2 c s] s'
    have fire: "s' = settle (escalateToSOS (profile c) t1 t2 s) s" by auto
    show ?thesis
    proof (cases "devices s (deviceId (profile c))")
      case None
      then have "s' = s" by (simp add: fire handler_defs settle_def)
      with False show ?thesis by simp
    next
      case (Some d)
      show ?thesis
        by (simp add: Tick fire escalateToSOS_Some [OF Some] settle_def statusOf_def field_def)
    qed
  qed
next
  case (Click b)
  from assms Click have s': "s' = settle (onClick b (profile c) t1 t2 s) s"
    by (auto split: option.splits dest: click_Some)
  show ?thesis
  proof (cases "devices s (deviceId (profile c))")
    case None
    then have "s' = s" by (simp add: s' onClick_rejects settle_def)
    then show ?thesis by (cases b) (simp_all add: Click)
  next
    case (Some d)
    from onClick_writes [OF Some, of b t1 t2] obtain ev where
      w: "onClick b (profile c) t1 t2 s =
             Some (s\<lparr>devices := (devices s)(deviceId (profile c) \<mapsto>
                        d\<lparr>status := the (spec_target (Click b)), lastUpdate := t1\<rparr>),
                     events := events s @ [(nextId s, ev)], nextId := Suc (nextId s)\<rparr>)"
      and ty: "field ev ''type'' = map_option Str (spec_event_type (Click b))"
      and di: "field ev ''deviceId'' = Some (Str (deviceId (profile c)))"
      by blast
    have st: "statusOf s' (deviceId (profile c)) = spec_target (Click b)"
      unfolding s' by (rule statusOf_settle_onClick [OF Some])
    have evs: "events s' = events s @ [(nextId s, ev)]"
      by (simp add: s' w settle_def)
    from st evs ty di show ?thesis
      by (cases b) (auto simp: Click)
  qed
next
  case Push
  with assms show ?thesis by auto
next
  case (Snapshot snap)
  with assms show ?thesis by auto
next
  case SimFall
  with assms sim_step_events(1) [of "deviceId (profile c)" t1 sim s] show ?thesis
    by (auto split: prod.splits)
next
  case SimSOS
  with assms sim_step_events(2) [of "deviceId (profile c)" t1 sim s] show ?thesis
    by (auto split: prod.splits)
next
  case SimReset
  with assms sim_step_events(3) [of "deviceId (profile c)" "device c" t1 t2 sim s] show ?thesis
    by (auto split: prod.splits)
next
  case (SimFluctuate k1 k2)
  with assms sim_step_events(4) [of "deviceId (profile c)" "device c" k1 k2 t1 sim s]
  show ?thesis by (auto split: prod.splits)
next
  case (SimSlider v)
  with assms sim_step_events(5) [of "deviceId (profile c)" "device c" v t1 sim s]
  show ?thesis by (auto split: prod.splits)
next
  case SimToggle
  with assms show ?thesis by auto
qed

theorem C3_witness:
  "app_step (Click CancelButton) 7 8
     (demoClient Elderly (Some (demoDevice FALL 0)) (Some 3), demoSim, demoStore FALL) =
     Some (demoClient Elderly (Some (demoDevice FALL 0)) (Some 3), demoSim, demoCancelled)
   \<and> (case spec_event_type (Click CancelButton) of
         Some ty \<Rightarrow>
           demoCancelled = demoStore FALL
           \<or> (statusOf demoCancelled
                 (deviceId (profile (demoClient Elderly (Some (demoDevice FALL 0)) (Some 3))))
                = spec_target (Click CancelButton)
              \<and> (\<exists>ev. events demoCancelled =
                       events (demoStore FALL) @ [(nextId (demoStore FALL), ev)]
                   \<and> field ev ''type'' = Some (Str ty)
                   \<and> field ev ''deviceId'' =
                       Some (Str (deviceId (profile
                         (demoClient Elderly (Some (demoDevice FALL 0)) (Some 3)))))))
       | None \<Rightarrow> events demoCancelled = events (demoStore FALL))"
proof -
  have h: "app_step (Click CancelButton) 7 8
     (demoClient Elderly (Some (demoDevice FALL 0)) (Some 3), demoSim, demoStore FALL) =
     Some (demoClient Elderly (Some (demoDevice FALL 0)) (Some 3), demoSim, demoCancelled)"
    by (simp add: click_def view_defs handler_defs settle_def demo_defs)
  from h C3_client_transitions_logged_simulator_not [OF h] show ?thesis by (rule conjI)
qed

section \<open>From FALL to SAFE\<close>

text \<open>
  Claim C4, as stated, fails: the simulator's reset takes a device from FALL
  to SAFE with no wearer action and no event at all.
\<close>

theorem C4_counterexample:
  "statusOf (demoStore FALL) demoId = Some FALL
   \<and> app_step SimReset 5 6
        (demoClient Caregiver (Some (demoDevice FALL 0)) (Some 9), demoSim, demoStore FALL) =
      Some (demoClient Caregiver (Some (demoDevice FALL 0)) (Some 9),
            \<lparr>sim_vitals = \<lparr>heartRate = 72, spo2 = 99, battery = 82\<rparr>, autoUpdate = True\<rparr>,
            \<lparr>devices = [demoId \<mapsto>
                \<lparr>status = SAFE, vitals = \<lparr>heartRate = 72, spo2 = 99, battery = 82\<rparr>,
                 lastUpdate = 6\<rparr>],
             events = [], caregivers = [], nextId = 0\<rparr>)"
  by (simp add: resetDevice_def setVitals_def vitalsEffect_def syncToFirebase_def updateDoc_def
      settle_def demo_defs statusOf_def)

text \<open>
  Claim C4, amended. A step that takes the status in the store from FALL to
  SAFE is one of three kinds. It is the wearer's cancel, from a client
  showing FALL, which appends a FALSE_ALARM event; or a resolve, from a
  client still showing SOS or AMBULANCE, which appends an EMERGENCY_RESOLVED
  event; in both the event is appended after the status write, so the
  status's \<^verbatim>\<open>lastUpdate\<close> is the server time of the write and the event's
  timestamp that of the later append. Or it is the simulator's reset, or a
  vitals change of the simulator under auto-fluctuate, which append no event.
\<close>

theorem C4_fall_to_safe_paths:
  assumes step: "app_step e t1 t2 (c, sim, s) = Some (c', sim', s')"
    and before: "statusOf s (deviceId (profile c)) = Some FALL"
    and after: "statusOf s' (deviceId (profile c)) = Some SAFE"
  shows "(e = Click CancelButton \<and> role (profile c) = Elderly \<and> isFall c
          \<and> events s' = events s @
              [(nextId s, [(''deviceId'', Str (deviceId (profile c))),
                           (''type'', Str ''FALSE_ALARM''), (''timestamp'', Time t2),
                           (''status'', Str ''RESOLVED'')])]
          \<and> map_option lastUpdate (devices s' (deviceId (profile c))) = Some t1)
       \<or> (e = Click ResolveButton \<and> (isSOS c \<or> isAmbulance c)
          \<and> events s' = events s @
              [(nextId s, [(''deviceId'', Str (deviceId (profile c))),
                           (''type'', Str ''EMERGENCY_RESOLVED''), (''timestamp'', Time t2),
                           (''resolvedBy'', Str (role_name (role (profile c))))])]
          \<and> map_option lastUpdate (devices s' (deviceId (profile c))) = Some t1)
       \<or> ((e = SimReset \<or> (autoUpdate sim \<and> ((\<exists>k1 k2. e = SimFluctuate k1 k2) \<or> (\<exists>v. e = SimSlider v))))
          \<and> events s' = events s)"
proof -
  let ?did = "deviceId (profile c)"
  from before obtain d where d: "devices s ?did = Some d" and fd: "status d = FALL"
    by (auto simp: statusOf_def)
  show ?thesis
  proof (cases e)
    case Tick
    from step Tick have s': "s' = snd (tick t1 t2 (c, s))" by (auto split: prod.splits)
    with tick_store [of t1 t2 c s] have "s' = s \<or> s' = settle (escalateToSOS (profile c) t1 t2 s) s"
      by auto
    with before after d show ?thesis
      by (auto simp: escalateToSOS_Some settle_def statusOf_def)
  next
    case (Click b)
    from step Click have r: "rendered c b" and s': "s' = settle (onClick b (profile c) t1 t2 s) s"
      by (auto split: option.splits dest: click_Some)
    from after statusOf_settle_onClick [OF d, of b t1 t2] s'
    have tgt: "spec_target (Click b) = Some SAFE" by simp
    then have "b = CancelButton \<or> b = ResolveButton" by (cases b) simp_all
    then show ?thesis
    proof
      assume b: "b = CancelButton"
      with r have "role (profile c) = Elderly" "isFall c" by simp_all
      then show ?thesis
        using d by (simp add: Click b s' handler_defs settle_def)
    next
      assume b: "b = ResolveButton"
      with r have "isSOS c \<or> isAmbulance c" by simp
      then show ?thesis
        using d by (simp add: Click b s' handler_defs settle_def)
    qed
  next
    case Push
    with step before after show ?thesis by auto
  next
    case (Snapshot snap)
    with step before after show ?thesis by auto
  next
    case SimFall
    with step after d show ?thesis
      by (auto simp: triggerFall_def statusOf_settle_updateDoc)
  next
    case SimSOS
    with step after d show ?thesis
      by (auto simp: triggerSOS_def statusOf_settle_updateDoc)
  next
    case SimReset
    with step sim_step_events(3) [of ?did "device c" t1 t2 sim s] show ?thesis
      by (auto split: prod.splits)
  next
    case (SimFluctuate k1 k2)
    show ?thesis
    proof (cases "autoUpdate sim")
      case True
      with step SimFluctuate sim_step_events(4) [of ?did "device c" k1 k2 t1 sim s]
      show ?thesis by (auto split: prod.splits)
    next
      case False
      with step SimFluctuate before after show ?thesis
        by (auto simp: fluctuateTick_def)
    qed
  next
    case (SimSlider v)
    show ?thesis
    proof (cases "autoUpdate sim")
      case True
      with step SimSlider sim_step_events(5) [of ?did "device c" v t1 sim s]
      show ?thesis by (auto split: prod.splits)
    next
      case False
      with step SimSlider before after show ?thesis
        by (auto simp: setVitals_def vitalsEffect_def)
    qed
  next
    case SimToggle
    with step before after show ?thesis by auto
  qed
qed

theorem C4_witness:
  "app_step (Click CancelButton) 7 8
     (demoClient Elderly (Some (demoDevice FALL 0)) (Some 3), demoSim, demoStore FALL) =
     Some (demoClient Elderly (Some (demoDevice FALL 0)) (Some 3), demoSim, demoCancelled)
   \<and> statusOf (demoStore FALL)
        (deviceId (profile (demoClient Elderly (Some (demoDevice FALL 0)) (Some 3)))) = Some FALL
   \<and> statusOf demoCancelled
        (deviceId (profile (demoClient Elderly (Some (demoDevice FALL 0)) (Some 3)))) = Some SAFE
   \<and> role (profile (demoClient Elderly (Some (demoDevice FALL 0)) (Some 3))) = Elderly
   \<and> isFall (demoClient Elderly (Some (demoDevice FALL 0)) (Some 3))
   \<and> events demoCancelled = events (demoStore FALL) @
        [(nextId (demoStore FALL),
          [(''deviceId'', Str (deviceId (profile
              (demoClient Elderly (Some (demoDevice FALL 0)) (Some 3))))),
           (''type'', Str ''FALSE_ALARM''), (''timestamp'', Time 8),
           (''status'', Str ''RESOLVED'')])]
   \<and> map_option lastUpdate (devices demoCancelled
        (deviceId (profile (demoClient Elderly (Some (demoDevice FALL 0)) (Some 3))))) = Some 7"
proof -
  let ?c = "demoClient Elderly (Some (demoDevice FALL 0)) (Some 3)"
  have h1: "app_step (Click CancelButton) 7 8 (?c, demoSim, demoStore FALL) =
     Some (?c, demoSim, demoCancelled)"
    by (simp add: click_def view_defs handler_defs settle_def demo_defs)
  have h2: "statusOf (demoStore FALL) (deviceId (profile ?c)) = Some FALL"
    by (simp add: statusOf_def demo_defs)
  have h3: "statusOf demoCancelled (deviceId (profile ?c)) = Some SAFE"
    by (simp add: statusOf_def demo_defs)
  from C4_fall_to_safe_paths [OF h1 h2 h3]
  have "role (profile ?c) = Elderly \<and> isFall ?c
     \<and> events demoCancelled = events (demoStore FALL) @
        [(nextId (demoStore FALL),
          [(''deviceId'', Str (deviceId (profile ?c))),
           (''type'', Str ''FALSE_ALARM''), (''timestamp'', Time 8),
           (''status'', Str ''RESOLVED'')])]
     \<and> map_option lastUpdate (devices demoCancelled (deviceId (profile ?c))) = Some 7"
    by (elim disjE conjE) (simp_all only: step.distinct step.inject button.distinct simp_thms)
  with h1 h2 h3 show ?thesis by (intro conjI) (elim conjE, assumption)+
qed

section \<open>Who can cancel a fall\<close>

text \<open>
  Claim C5, as stated, fails in its last part: a cancel-fall is performed
  while the status of the device is not FALL. The cancel button is decided
  by the snapshot the wearer's client holds, and the handler does not look at
  the store. A wearer's client still showing FALL, while the store already
  holds AMBULANCE (a caregiver has requested one), cancels: the status goes
  from AMBULANCE to SAFE and a FALSE_ALARM event is appended.
\<close>

theorem C5_counterexample:
  "statusOf (demoStore AMBULANCE) demoId = Some AMBULANCE
   \<and> click CancelButton 7 8
        (demoClient Elderly (Some (demoDevice FALL 0)) (Some 9), demoStore AMBULANCE) =
      Some (demoClient Elderly (Some (demoDevice FALL 0)) (Some 9), demoCancelled)
   \<and> statusOf demoCancelled demoId = Some SAFE"
  by (simp add: click_def view_defs handler_defs settle_def demo_defs statusOf_def)

text \<open>
  Claim C5, amended. A cancel-fall attempt by a caregiver never changes the
  device status: on a caregiver's client the cancel button is rendered in no
  state of the client and of the store, so the request cannot be issued, and
  the only requests a caregiver's client can issue are the ambulance request
  and the resolve. Only a wearer's client can perform cancel-fall, and only
  while the device snapshot it holds has status exactly FALL. The status the
  store holds at that moment is not checked: whatever the device document
  holds, the cancel sets its status to SAFE and its \<^verbatim>\<open>lastUpdate\<close>, and appends
  one FALSE_ALARM event.
\<close>

theorem C5_cancel_fall_by_role_and_observed_status:
  "(role (profile c) = Caregiver \<longrightarrow>
      click CancelButton t1 t2 (c, s) = None
    \<and> app_step (Click CancelButton) t1 t2 (c, sim, s) = None)
   \<and> (role (profile c) = Caregiver \<and> click b t1 t2 (c, s) \<noteq> None \<longrightarrow>
        b = AmbulanceButton \<or> b = ResolveButton)
   \<and> (click CancelButton t1 t2 (c, s) = Some (c', s')
        \<and> devices s (deviceId (profile c)) = Some d' \<longrightarrow>
        role (profile c) = Elderly
      \<and> (\<exists>d. device c = Some d \<and> status d = FALL)
      \<and> c' = c
      \<and> s' = s\<lparr>devices := (devices s)(deviceId (profile c) \<mapsto>
                   d'\<lparr>status := SAFE, lastUpdate := t1\<rparr>),
                events := events s @
                  [(nextId s, [(''deviceId'', Str (deviceId (profile c))),
                               (''type'', Str ''FALSE_ALARM''), (''timestamp'', Time t2),
                               (''status'', Str ''RESOLVED'')])],
                nextId := Suc (nextId s)\<rparr>)"
proof -
  have p1: "role (profile c) = Caregiver \<longrightarrow>
      click CancelButton t1 t2 (c, s) = None
    \<and> app_step (Click CancelButton) t1 t2 (c, sim, s) = None"
    by (simp add: click_def)
  have p2: "role (profile c) = Caregiver \<and> click b t1 t2 (c, s) \<noteq> None \<longrightarrow>
        b = AmbulanceButton \<or> b = ResolveButton"
    by (cases b) (auto simp: click_def)
  have p3: "click CancelButton t1 t2 (c, s) = Some (c', s')
        \<and> devices s (deviceId (profile c)) = Some d' \<longrightarrow>
        role (profile c) = Elderly
      \<and> (\<exists>d. device c = Some d \<and> status d = FALL)
      \<and> c' = c
      \<and> s' = s\<lparr>devices := (devices s)(deviceId (profile c) \<mapsto>
                   d'\<lparr>status := SAFE, lastUpdate := t1\<rparr>),
                events := events s @
                  [(nextId s, [(''deviceId'', Str (deviceId (profile c))),
                               (''type'', Str ''FALSE_ALARM''), (''timestamp'', Time t2),
                               (''status'', Str ''RESOLVED'')])],
                nextId := Suc (nextId s)\<rparr>"
  proof
    assume a: "click CancelButton t1 t2 (c, s) = Some (c', s')
        \<and> devices s (deviceId (profile c)) = Some d'"
    then have r: "rendered c CancelButton" and c': "c' = c"
      and s': "s' = settle (onClick CancelButton (profile c) t1 t2 s) s"
      by (auto dest: click_Some)
    from r have role: "role (profile c) = Elderly"
      and obs: "\<exists>d. device c = Some d \<and> status d = FALL"
      by (auto simp: view_defs split: option.splits)
    from a have w: "s' = s\<lparr>devices := (devices s)(deviceId (profile c) \<mapsto>
                   d'\<lparr>status := SAFE, lastUpdate := t1\<rparr>),
                events := events s @
                  [(nextId s, [(''deviceId'', Str (deviceId (profile c))),
                               (''type'', Str ''FALSE_ALARM''), (''timestamp'', Time t2),
                               (''status'', Str ''RESOLVED'')])],
                nextId := Suc (nextId s)\<rparr>"
      by (simp add: s' handler_defs settle_def)
    from role obs c' w show "role (profile c) = Elderly
      \<and> (\<exists>d. device c = Some d \<and> status d = FALL)
      \<and> c' = c
      \<and> s' = s\<lparr>devices := (devices s)(deviceId (profile c) \<mapsto>
                   d'\<lparr>status := SAFE, lastUpdate := t1\<rparr>),
                events := events s @
                  [(nextId s, [(''deviceId'', Str (deviceId (profile c))),
                               (''type'', Str ''FALSE_ALARM''), (''timestamp'', Time t2),
                               (''status'', Str ''RESOLVED'')])],
                nextId := Suc (nextId s)\<rparr>"
      by (intro conjI)
  qed
  from p1 p2 p3 show ?thesis by (intro conjI)
qed

theorem C5_witness:
  "role (profile (demoClient Caregiver (Some (demoDevice FALL 0)) (Some 15))) = Caregiver
   \<and> click CancelButton 7 8
        (demoClient Caregiver (Some (demoDevice FALL 0)) (Some 15), demoStore FALL) = None
   \<and> app_step (Click CancelButton) 7 8
        (demoClient Caregiver (Some (demoDevice FALL 0)) (Some 15), demoSim, demoStore FALL) = None
   \<and> click AmbulanceButton 7 8
        (demoClient Caregiver (Some (demoDevice FALL 0)) (Some 15), demoStore FALL) \<noteq> None
   \<and> (AmbulanceButton = AmbulanceButton \<or> AmbulanceButton = ResolveButton)
   \<and> click CancelButton 7 8
        (demoClient Elderly (Some (demoDevice FALL 0)) (Some 15), demoStore SOS) =
      Some (demoClient Elderly (Some (demoDevice FALL 0)) (Some 15), demoCancelled)
   \<and> devices (demoStore SOS)
        (deviceId (profile (demoClient Elderly (Some (demoDevice FALL 0)) (Some 15)))) =
      Some (demoDevice SOS 0)
   \<and> role (profile (demoClient Elderly (Some (demoDevice FALL 0)) (Some 15))) = Elderly
   \<and> (\<exists>d. device (demoClient Elderly (Some (demoDevice FALL 0)) (Some 15)) = Some d
          \<and> status d = FALL)
   \<and> demoCancelled = (demoStore SOS)\<lparr>devices := (devices (demoStore SOS))
          (deviceId (profile (demoClient Elderly (Some (demoDevice FALL 0)) (Some 15))) \<mapsto>
             (demoDevice SOS 0)\<lparr>status := SAFE, lastUpdate := 7\<rparr>),
        events := events (demoStore SOS) @
          [(nextId (demoStore SOS),
            [(''deviceId'', Str (deviceId (profile
                (demoClient Elderly (Some (demoDevice FALL 0)) (Some 15))))),
             (''type'', Str ''FALSE_ALARM''), (''timestamp'', Time 8),
             (''status'', Str ''RESOLVED'')])],
        nextId := Suc (nextId (demoStore SOS))\<rparr>"
proof -
  let ?cg = "demoClient Caregiver (Some (demoDevice FALL 0)) (Some 15)"
  let ?wr = "demoClient Elderly (Some (demoDevice FALL 0)) (Some 15)"
  have h1: "role (profile ?cg) = Caregiver" by (simp add: demoClient_def)
  have h2: "click AmbulanceButton 7 8 (?cg, demoStore FALL) \<noteq> None"
    by (simp add: click_def view_defs demoClient_def demoDevice_def)
  have h3: "click CancelButton 7 8 (?wr, demoStore SOS) = Some (?wr, demoCancelled)"
    by (simp add: click_def view_defs handler_defs settle_def demo_defs)
  have h4: "devices (demoStore SOS) (deviceId (profile ?wr)) = Some (demoDevice SOS 0)"
    by (simp add: demo_defs)
  note a = C5_cancel_fall_by_role_and_observed_status
      [of ?cg 7 8 "demoStore FALL" demoSim, THEN conjunct1, THEN mp, OF h1]
  note b = C5_cancel_fall_by_role_and_observed_status
      [of ?cg 7 8 "demoStore FALL" demoSim AmbulanceButton, THEN conjunct2, THEN conjunct1,
       THEN mp, OF conjI [OF h1 h2]]
  note c = C5_cancel_fall_by_role_and_observed_status
      [of ?wr 7 8 "demoStore SOS" demoSim CancelButton ?wr demoCancelled "demoDevice SOS 0",
       THEN conjunct2, THEN conjunct2, THEN mp, OF conjI [OF h3 h4]]
  from h1 a h2 b h3 h4 c show ?thesis by blast
qed

section \<open>Cancellation of the countdown\<close>

text \<open>
  Claim C6. Once a client is pushed a device document whose status is not
  FALL, whatever its countdown showed, its timer issues nothing: through any
  number of seconds, and any further pushes of documents that are not FALL,
  the store (device documents and events) and the simulator stay exactly as
  they were, so no FALL-to-SOS write and no FALL_ESCALATED append is made.
\<close>

theorem C6_timer_cancelled_away_from_FALL:
  assumes "status d \<noteq> FALL" and "list_all awayFromFall (map fst es)"
  shows "\<exists>c'. run ((Snapshot (Some d), t1, t2) # es) (c, sim, s) = Some (c', sim, s)
              \<and> \<not> isFall c'"
proof -
  have "\<not> isFall (onDeviceSnapshot (Some d) c)" using assms(1) by simp
  from run_awayFromFall [OF this assms(2)] show ?thesis by simp
qed

theorem C6_witness:
  "status (demoDevice SOS 30) \<noteq> FALL
   \<and> list_all awayFromFall (map fst
        [(Tick, 31, 32), (Tick, 33, 34), (Snapshot (Some (demoDevice AMBULANCE 40)), 0, 0),
         (Tick, 41, 42)])
   \<and> isFall (demoClient Caregiver (Some (demoDevice FALL 0)) (Some 7))
   \<and> (\<exists>c'. run ((Snapshot (Some (demoDevice SOS 30)), 0, 0) #
          [(Tick, 31, 32), (Tick, 33, 34), (Snapshot (Some (demoDevice AMBULANCE 40)), 0, 0),
           (Tick, 41, 42)])
          (demoClient Caregiver (Some (demoDevice FALL 0)) (Some 7), demoSim, demoStore SOS) =
          Some (c', demoSim, demoStore SOS) \<and> \<not> isFall c')"
proof -
  have h1: "status (demoDevice SOS 30) \<noteq> FALL" by (simp add: demoDevice_def)
  have h2: "list_all awayFromFall (map fst
        [(Tick, 31, 32), (Tick, 33, 34), (Snapshot (Some (demoDevice AMBULANCE 40)), 0, 0),
         (Tick, 41, 42)])"
    by (simp add: demoDevice_def)
  have h3: "isFall (demoClient Caregiver (Some (demoDevice FALL 0)) (Some 7))"
    by (simp add: isFall_def demoClient_def demoDevice_def)
  from h1 h2 h3 C6_timer_cancelled_away_from_FALL [OF h1 h2] show ?thesis
    by (intro conjI)
qed

section \<open>Read side: the per-device history\<close>

lemma mset_insert_by: "mset (insert_by cmp x xs) = add_mset x (mset xs)"
  by (induction xs) auto

lemma mset_js_sort: "mset (js_sort cmp xs) = mset xs"
  unfolding js_sort_def by (induction xs) (auto simp: mset_insert_by)

lemma set_insert_by: "set (insert_by cmp x xs) = insert x (set xs)"
  by (induction xs) auto

lemma desc_insert_by:
  "sorted_wrt (\<lambda>a b. k b \<le> k a) xs \<Longrightarrow>
   sorted_wrt (\<lambda>a b. k b \<le> k a) (insert_by (\<lambda>a b. k b - k a) x xs)"
proof (induction xs)
  case Nil
  show ?case by simp
next
  case (Cons y ys)
  show ?case
  proof (cases "k y - k x \<le> (0::int)")
    case True
    with Cons.prems show ?thesis by (auto intro: order_trans)
  next
    case False
    with Cons show ?thesis by (auto simp: set_insert_by)
  qed
qed

lemma desc_js_sort:
  "sorted_wrt (\<lambda>a b. k b \<le> k a) (js_sort (\<lambda>a b. k b - k a) xs)"
  unfolding js_sort_def by (induction xs) (auto intro: desc_insert_by)

lemma asc_insert_by:
  "sorted_wrt (\<lambda>a b. k a \<le> k b) xs \<Longrightarrow>
   sorted_wrt (\<lambda>a b. k a \<le> k b) (insert_by (\<lambda>a b. k a - k b) x xs)"
proof (induction xs)
  case Nil
  show ?case by simp
next
  case (Cons y ys)
  show ?case
  proof (cases "k x - k y \<le> (0::int)")
    case True
    with Cons.prems show ?thesis by (auto intro: order_trans)
  next
    case False
    with Cons show ?thesis by (auto simp: set_insert_by)
  qed
qed

lemma asc_js_sort:
  "sorted_wrt (\<lambda>a b. k a \<le> k b) (js_sort (\<lambda>a b. k a - k b) xs)"
  unfolding js_sort_def by (induction xs) (auto intro: asc_insert_by)

lemma stable_insert_by:
  "filter (\<lambda>e. k e = m) (insert_by (\<lambda>a b. k b - k a) x xs) =
   (if k x = m then x # filter (\<lambda>e. k e = m) xs else filter (\<lambda>e. k e = m) xs)"
  by (induction xs) auto

lemma stable_js_sort:
  "filter (\<lambda>e. k e = m) (js_sort (\<lambda>a b. k b - k a) xs) = filter (\<lambda>e. k e = (m::int)) xs"
  unfolding js_sort_def by (induction xs) (auto simp: stable_insert_by)

lemma sorted_wrt_weaken:
  "sorted_wrt P xs \<Longrightarrow> (\<And>a b. P a b \<Longrightarrow> Q a b) \<Longrightarrow> sorted_wrt Q xs"
  by (induction xs) auto

text \<open>
  Claim C8. For every pushed event list and every paired device id, the
  history the client keeps holds exactly the events whose \<^verbatim>\<open>deviceId\<close> field is
  the paired id, each as often as in the pushed list, and it is in descending
  order of the \<^verbatim>\<open>timestamp\<close> field: of two events that both carry a timestamp
  the earlier in the history has the later or equal time, and events of the
  same time keep the order of the pushed list. An event that carries no
  timestamp takes the place of time 0. The statement reads the fields of the
  events themselves.
\<close>

theorem C8_history_is_filter_sorted_desc:
  "mset (myEvents did allEvents) =
     filter_mset (\<lambda>e. map_of (snd e) ''deviceId'' = Some (Str did)) (mset allEvents)
   \<and> sorted_wrt
        (\<lambda>a b. (case map_of (snd b) ''timestamp'' of Some (Time t) \<Rightarrow> int t | _ \<Rightarrow> 0)
             \<le> (case map_of (snd a) ''timestamp'' of Some (Time t) \<Rightarrow> int t | _ \<Rightarrow> 0))
        (myEvents did allEvents)
   \<and> sorted_wrt
        (\<lambda>a b. \<forall>ta tb. map_of (snd a) ''timestamp'' = Some (Time ta) \<longrightarrow>
                        map_of (snd b) ''timestamp'' = Some (Time tb) \<longrightarrow> tb \<le> ta)
        (myEvents did allEvents)
   \<and> filter (\<lambda>e. map_of (snd e) ''timestamp'' = Some (Time m)) (myEvents did allEvents) =
       filter (\<lambda>e. map_of (snd e) ''timestamp'' = Some (Time m))
         (filter (\<lambda>e. map_of (snd e) ''deviceId'' = Some (Str did)) allEvents)"
proof -
  let ?k = "\<lambda>e::nat \<times> event.
      (case map_of (snd e) ''timestamp'' of Some (Time t) \<Rightarrow> int t | _ \<Rightarrow> 0)"
  let ?own = "\<lambda>e::nat \<times> event. map_of (snd e) ''deviceId'' = Some (Str did)"
  have key: "(\<lambda>a b. millis (snd b) - millis (snd a)) = (\<lambda>a b. ?k b - ?k a)"
    by (simp add: millis_def field_def)
  have my: "myEvents did allEvents = js_sort (\<lambda>a b. ?k b - ?k a) (filter ?own allEvents)"
    by (simp add: myEvents_def key field_def)
  have s1: "sorted_wrt (\<lambda>a b. ?k b \<le> ?k a) (myEvents did allEvents)"
    unfolding my by (rule desc_js_sort)
  have s2: "sorted_wrt
        (\<lambda>a b. \<forall>ta tb. map_of (snd a) ''timestamp'' = Some (Time ta) \<longrightarrow>
                        map_of (snd b) ''timestamp'' = Some (Time tb) \<longrightarrow> tb \<le> ta)
        (myEvents did allEvents)"
    by (rule sorted_wrt_weaken [OF s1]) auto
  have st: "filter (\<lambda>e. ?k e = int m) (myEvents did allEvents) =
      filter (\<lambda>e. ?k e = int m) (filter ?own allEvents)"
    unfolding my by (rule stable_js_sort)
  have "filter (\<lambda>e. map_of (snd e) ''timestamp'' = Some (Time m)) (myEvents did allEvents) =
      filter (\<lambda>e. map_of (snd e) ''timestamp'' = Some (Time m))
        (filter (\<lambda>e. ?k e = int m) (myEvents did allEvents))"
    by (simp add: conj_commute cong: conj_cong)
  also have "\<dots> = filter (\<lambda>e. map_of (snd e) ''timestamp'' = Some (Time m))
        (filter (\<lambda>e. ?k e = int m) (filter ?own allEvents))"
    by (simp only: st)
  also have "\<dots> = filter (\<lambda>e. map_of (snd e) ''timestamp'' = Some (Time m)) (filter ?own allEvents)"
    by (simp add: conj_commute cong: conj_cong)
  finally have s3: "filter (\<lambda>e. map_of (snd e) ''timestamp'' = Some (Time m)) (myEvents did allEvents) =
      filter (\<lambda>e. map_of (snd e) ''timestamp'' = Some (Time m)) (filter ?own allEvents)" .
  have m: "mset (myEvents did allEvents) = filter_mset ?own (mset allEvents)"
    by (simp add: my mset_js_sort)
  from m s1 s2 s3 show ?thesis by (intro conjI)
qed

theorem C8_witness:
  "(mset (myEvents demoId demoEvents) =
     filter_mset (\<lambda>e. map_of (snd e) ''deviceId'' = Some (Str demoId)) (mset demoEvents)
   \<and> sorted_wrt
        (\<lambda>a b. (case map_of (snd b) ''timestamp'' of Some (Time t) \<Rightarrow> int t | _ \<Rightarrow> 0)
             \<le> (case map_of (snd a) ''timestamp'' of Some (Time t) \<Rightarrow> int t | _ \<Rightarrow> 0))
        (myEvents demoId demoEvents)
   \<and> sorted_wrt
        (\<lambda>a b. \<forall>ta tb. map_of (snd a) ''timestamp'' = Some (Time ta) \<longrightarrow>
                        map_of (snd b) ''timestamp'' = Some (Time tb) \<longrightarrow> tb \<le> ta)
        (myEvents demoId demoEvents)
   \<and> filter (\<lambda>e. map_of (snd e) ''timestamp'' = Some (Time 5)) (myEvents demoId demoEvents) =
       filter (\<lambda>e. map_of (snd e) ''timestamp'' = Some (Time 5))
         (filter (\<lambda>e. map_of (snd e) ''deviceId'' = Some (Str demoId)) demoEvents))
   \<and> map fst (myEvents demoId demoEvents) = [3, 0, 4, 2]"
proof -
  have e: "map fst (myEvents demoId demoEvents) = [3, 0, 4, 2]"
    by (simp add: myEvents_def js_sort_def millis_def field_def demoEvents_def demoId_def)
  from C8_history_is_filter_sorted_desc [of demoId demoEvents 5] e show ?thesis
    by (rule conjI)
qed

section \<open>Scenario 3: ambulance request and resolution\<close>

text \<open>
  Claim C7, as stated, fails on the event's fields: the event appended by
  \<^verbatim>\<open>handleRequestAmbulance\<close> names the requesting role in \<^verbatim>\<open>requestedBy\<close> and has
  no \<^verbatim>\<open>actorRole\<close> field. A caregiver who sees SOS and requests an ambulance:
\<close>

theorem C7_counterexample:
  "click AmbulanceButton 100 101
     (demoClient Caregiver (Some (demoDevice SOS 0)) (Some 15), demoStore SOS) =
     Some (demoClient Caregiver (Some (demoDevice SOS 0)) (Some 15),
       \<lparr>devices = [demoId \<mapsto> demoDevice AMBULANCE 100],
        events = [(0, [(''deviceId'', Str demoId), (''type'', Str ''AMBULANCE_REQUESTED''),
                       (''timestamp'', Time 101), (''status'', Str ''DISPATCHED''),
                       (''requestedBy'', Str ''caregiver'')])],
        caregivers = [], nextId = 1\<rparr>)
   \<and> field [(''deviceId'', Str demoId), (''type'', Str ''AMBULANCE_REQUESTED''),
             (''timestamp'', Time 101), (''status'', Str ''DISPATCHED''),
             (''requestedBy'', Str ''caregiver'')] ''actorRole'' = None"
  by (simp add: click_def view_defs handler_defs settle_def demo_defs field_def)

text \<open>
  Claim C7, amended. When a caregiver whose client shows SOS (or FALL)
  requests an ambulance, the status becomes AMBULANCE and the event
  \<^verbatim>\<open>{type: "AMBULANCE_REQUESTED", status: "DISPATCHED", requestedBy: "caregiver"}\<close>
  is appended; when the wearer, having received that state, then resolves, the
  status becomes SAFE and the event
  \<^verbatim>\<open>{type: "EMERGENCY_RESOLVED", resolvedBy: "elderly"}\<close> is appended.
\<close>

theorem C7_ambulance_then_resolve:
  assumes cg: "role (profile c) = Caregiver" and view: "isSOS c \<or> isFall c"
    and dev: "devices s (deviceId (profile c)) = Some d"
    and w: "role (profile w) = Elderly" and same: "deviceId (profile w) = deviceId (profile c)"
  shows "\<exists>s1 s2.
      click AmbulanceButton t1 t2 (c, s) = Some (c, s1)
    \<and> statusOf s1 (deviceId (profile c)) = Some AMBULANCE
    \<and> events s1 = events s @
        [(nextId s, [(''deviceId'', Str (deviceId (profile c))),
                     (''type'', Str ''AMBULANCE_REQUESTED''), (''timestamp'', Time t2),
                     (''status'', Str ''DISPATCHED''), (''requestedBy'', Str ''caregiver'')])]
    \<and> click ResolveButton t3 t4 (onDeviceSnapshot (devices s1 (deviceId (profile w))) w, s1) =
        Some (onDeviceSnapshot (devices s1 (deviceId (profile w))) w, s2)
    \<and> statusOf s2 (deviceId (profile c)) = Some SAFE
    \<and> events s2 = events s1 @
        [(nextId s1, [(''deviceId'', Str (deviceId (profile c))),
                      (''type'', Str ''EMERGENCY_RESOLVED''), (''timestamp'', Time t4),
                      (''resolvedBy'', Str ''elderly'')])]"
proof -
  let ?did = "deviceId (profile c)"
  let ?s1 = "s\<lparr>devices := (devices s)(?did \<mapsto> d\<lparr>status := AMBULANCE, lastUpdate := t1\<rparr>),
      events := events s @
        [(nextId s, [(''deviceId'', Str ?did),
                     (''type'', Str ''AMBULANCE_REQUESTED''), (''timestamp'', Time t2),
                     (''status'', Str ''DISPATCHED''), (''requestedBy'', Str ''caregiver'')])],
      nextId := Suc (nextId s)\<rparr>"
  define w' where "w' = onDeviceSnapshot (devices ?s1 (deviceId (profile w))) w"
  have wv: "device w' = Some (d\<lparr>status := AMBULANCE, lastUpdate := t1\<rparr>)"
    by (simp add: w'_def same)
  have wp: "profile w' = profile w"
    by (simp add: w'_def)
  have r1: "rendered c AmbulanceButton"
    using cg view by (auto simp: view_defs split: option.splits)
  have a: "click AmbulanceButton t1 t2 (c, s) = Some (c, ?s1)"
    using r1 dev cg by (simp add: click_def handler_defs settle_def)
  have r2: "rendered w' ResolveButton"
    using wv by (simp add: view_defs)
  have b: "\<exists>s2. click ResolveButton t3 t4 (w', ?s1) = Some (w', s2)
      \<and> statusOf s2 ?did = Some SAFE
      \<and> events s2 = events ?s1 @
        [(nextId ?s1, [(''deviceId'', Str ?did),
                      (''type'', Str ''EMERGENCY_RESOLVED''), (''timestamp'', Time t4),
                      (''resolvedBy'', Str ''elderly'')])]"
    using r2 w by (simp add: click_def wp same handler_defs settle_def statusOf_def)
  have c1: "statusOf ?s1 ?did = Some AMBULANCE" by (simp add: statusOf_def)
  have c2: "events ?s1 = events s @
        [(nextId s, [(''deviceId'', Str ?did),
                     (''type'', Str ''AMBULANCE_REQUESTED''), (''timestamp'', Time t2),
                     (''status'', Str ''DISPATCHED''), (''requestedBy'', Str ''caregiver'')])]"
    by simp
  from b obtain s2 where
    b1: "click ResolveButton t3 t4 (w', ?s1) = Some (w', s2)" and
    b2: "statusOf s2 ?did = Some SAFE" and
    b3: "events s2 = events ?s1 @
        [(nextId ?s1, [(''deviceId'', Str ?did),
                      (''type'', Str ''EMERGENCY_RESOLVED''), (''timestamp'', Time t4),
                      (''resolvedBy'', Str ''elderly'')])]"
    by blast
  show ?thesis
    apply (rule exI[of _ ?s1], rule exI[of _ s2])
    using a c1 c2 b1[unfolded w'_def] b2 b3 by (intro conjI)
qed

theorem C7_witness:
  "role (profile (demoClient Caregiver (Some (demoDevice SOS 0)) (Some 15))) = Caregiver
   \<and> isSOS (demoClient Caregiver (Some (demoDevice SOS 0)) (Some 15))
   \<and> devices (demoStore SOS) demoId = Some (demoDevice SOS 0)
   \<and> role (profile (demoClient Elderly (Some (demoDevice SOS 0)) (Some 15))) = Elderly
   \<and> (\<exists>s1 s2.
        click AmbulanceButton 100 101
          (demoClient Caregiver (Some (demoDevice SOS 0)) (Some 15), demoStore SOS) =
          Some (demoClient Caregiver (Some (demoDevice SOS 0)) (Some 15), s1)
      \<and> statusOf s1 demoId = Some AMBULANCE
      \<and> events s1 =
          [(0, [(''deviceId'', Str demoId), (''type'', Str ''AMBULANCE_REQUESTED''),
                (''timestamp'', Time 101), (''status'', Str ''DISPATCHED''),
                (''requestedBy'', Str ''caregiver'')])]
      \<and> click ResolveButton 102 103
          (onDeviceSnapshot (devices s1 demoId)
             (demoClient Elderly (Some (demoDevice SOS 0)) (Some 15)), s1) =
          Some (onDeviceSnapshot (devices s1 demoId)
             (demoClient Elderly (Some (demoDevice SOS 0)) (Some 15)), s2)
      \<and> statusOf s2 demoId = Some SAFE
      \<and> events s2 = events s1 @
          [(nextId s1, [(''deviceId'', Str demoId), (''type'', Str ''EMERGENCY_RESOLVED''),
                        (''timestamp'', Time 103), (''resolvedBy'', Str ''elderly'')])])"
proof -
  let ?c = "demoClient Caregiver (Some (demoDevice SOS 0)) (Some 15)"
  let ?w = "demoClient Elderly (Some (demoDevice SOS 0)) (Some 15)"
  have h1: "role (profile ?c) = Caregiver" by (simp add: demoClient_def)
  have h2: "isSOS ?c" by (simp add: demoClient_def demoDevice_def isSOS_def)
  have h3: "devices (demoStore SOS) (deviceId (profile ?c)) = Some (demoDevice SOS 0)"
    by (simp add: demoClient_def demoStore_def)
  have h4: "role (profile ?w) = Elderly" by (simp add: demoClient_def)
  have h5: "deviceId (profile ?w) = deviceId (profile ?c)" by (simp add: demoClient_def)
  have id: "deviceId (profile ?c) = demoId" "deviceId (profile ?w) = demoId"
    by (simp_all add: demoClient_def)
  have ev: "events (demoStore SOS) = []" by (simp add: demoStore_def)
  have nx: "nextId (demoStore SOS) = 0" by (simp add: demoStore_def)
  note c = C7_ambulance_then_resolve [OF h1 disjI1 [OF h2] h3 h4 h5, of 100 101 102 103]
  have d: "devices (demoStore SOS) demoId = Some (demoDevice SOS 0)"
    using h3 by (simp add: id)
  from c have "\<exists>s1 s2.
        click AmbulanceButton 100 101 (?c, demoStore SOS) = Some (?c, s1)
      \<and> statusOf s1 demoId = Some AMBULANCE
      \<and> events s1 =
          [(0, [(''deviceId'', Str demoId), (''type'', Str ''AMBULANCE_REQUESTED''),
                (''timestamp'', Time 101), (''status'', Str ''DISPATCHED''),
                (''requestedBy'', Str ''caregiver'')])]
      \<and> click ResolveButton 102 103 (onDeviceSnapshot (devices s1 demoId) ?w, s1) =
          Some (onDeviceSnapshot (devices s1 demoId) ?w, s2)
      \<and> statusOf s2 demoId = Some SAFE
      \<and> events s2 = events s1 @
          [(nextId s1, [(''deviceId'', Str demoId), (''type'', Str ''EMERGENCY_RESOLVED''),
                        (''timestamp'', Time 103), (''resolvedBy'', Str ''elderly'')])]"
    by (simp only: id ev nx append_Nil)
  with h1 h2 d h4 show ?thesis by (intro conjI)
qed

section \<open>Caregiver priorities\<close>

text \<open>
  The caregiver list a client presents is in ascending order of priority,
  and a priority given by \<^verbatim>\<open>handleAdd\<close> is positive.
\<close>

lemma myCaregivers_ascending:
  "sorted_wrt (\<lambda>a b. priority a \<le> priority b) (myCaregivers did allCaregivers)"
  unfolding myCaregivers_def by (rule asc_js_sort)

lemma handleAdd_priority_positive:
  "\<forall>c \<in> set (caregivers s). 0 < priority c \<Longrightarrow>
   \<forall>c \<in> set (caregivers (handleAdd did cgs name phone s)). 0 < priority c"
  by (auto simp: handleAdd_def)

text \<open>
  Claim C9 asks that priorities stay unique within a device's caregivers
  under every sequence of adds and removes. \<^verbatim>\<open>handleAdd\<close> gives the new caregiver
  the priority \<^verbatim>\<open>caregivers.length + 1\<close>, which an earlier remove makes collide:
  after adding Asha and Bela, removing Asha and adding Chitra, the device has
  two caregivers of priority 2.
\<close>

theorem C9_duplicate_priority_after_remove:
  "map (\<lambda>c. (cg_name c, priority c))
     (myCaregivers demoId (caregivers
        (addCaregiver demoId ''Chitra'' ''333''
          (handleRemove 0
            (addCaregiver demoId ''Bela'' ''222''
              (addCaregiver demoId ''Asha'' ''111'' (demoStore SAFE))))))) =
   [(''Bela'', 2), (''Chitra'', 2)]"
  by (simp add: addCaregiver_def handleAdd_def handleRemove_def myCaregivers_def js_sort_def
      demo_defs)

section \<open>The simulator's vitals sync under auto-fluctuate\<close>

text \<open>
  Claim C10. While auto-fluctuate is on, every tick of the simulator's
  interval, and every other change of its vitals, writes the new vitals
  together with status SAFE (and the server time) into the device document,
  whatever status the document held: the update is never vitals-only, and a
  FALL, SOS or AMBULANCE set by anyone else is overwritten. Nothing is
  appended to the events.
\<close>

theorem C10_auto_fluctuate_sync_forces_SAFE:
  assumes "autoUpdate sim" and "devices s did = Some d"
  shows "fluctuateTick did cur k1 k2 t (sim, s) =
           (sim\<lparr>sim_vitals := fluctuate k1 k2 (sim_vitals sim)\<rparr>,
            s\<lparr>devices := (devices s)(did \<mapsto>
                 d\<lparr>vitals := fluctuate k1 k2 (sim_vitals sim), status := SAFE,
                   lastUpdate := t\<rparr>)\<rparr>)
       \<and> setVitals did cur v t (sim, s) =
           (sim\<lparr>sim_vitals := v\<rparr>,
            s\<lparr>devices := (devices s)(did \<mapsto> d\<lparr>vitals := v, status := SAFE, lastUpdate := t\<rparr>)\<rparr>)"
  using assms
  by (simp add: fluctuateTick_def setVitals_def vitalsEffect_def syncToFirebase_def
      updateDoc_def settle_def)

theorem C10_witness:
  "autoUpdate (demoSim\<lparr>autoUpdate := True\<rparr>)
   \<and> devices (demoStore FALL) demoId = Some (demoDevice FALL 0)
   \<and> statusOf (demoStore FALL) demoId = Some FALL
   \<and> statusOf (snd (fluctuateTick demoId None 4 0 5 (demoSim\<lparr>autoUpdate := True\<rparr>, demoStore FALL)))
        demoId = Some SAFE
   \<and> events (snd (fluctuateTick demoId None 4 0 5 (demoSim\<lparr>autoUpdate := True\<rparr>, demoStore FALL)))
        = []"
proof -
  have a: "autoUpdate (demoSim\<lparr>autoUpdate := True\<rparr>)" by simp
  have b: "devices (demoStore FALL) demoId = Some (demoDevice FALL 0)"
    by (simp add: demoStore_def)
  note c = C10_auto_fluctuate_sync_forces_SAFE [OF a b, THEN conjunct1]
  show ?thesis
    using a b by (simp add: c statusOf_def) (simp add: demo_defs)
qed

end
